theory Spec2Isabelle
  imports Complex_Main "HOL-Library.Word" "HOL-Library.Sublist" "HOL-Library.Multiset"
begin

unbundle bit_operations_syntax

section \<open>Strings\<close>

text \<open>
  A Python \<open>str\<close> is modelled as a \<open>string\<close> (a list of 8-bit characters), read as the
  UTF-8 bytes of the text. The case and whitespace functions below are those of Python on
  ASCII text: hostnames, header values and the lines of a domain file. Bytes above 127 are
  left alone by them.
\<close>

definition lower_char :: "char \<Rightarrow> char" where
  "lower_char c =
     (if 65 \<le> (of_char c :: nat) \<and> (of_char c :: nat) \<le> 90
      then char_of ((of_char c :: nat) + 32) else c)"

definition lower :: "string \<Rightarrow> string" where
  \<comment> \<open>\<open>s.lower()\<close>\<close>
  "lower s = map lower_char s"

definition is_space :: "char \<Rightarrow> bool" where
  \<comment> \<open>the ASCII characters \<open>str.strip()\<close> removes: TAB, LF, VT, FF, CR, FS, GS, RS, US, space\<close>
  "is_space c = ((of_char c :: nat) \<in> {9, 10, 11, 12, 13, 28, 29, 30, 31, 32})"

definition rstrip_chars :: "(char \<Rightarrow> bool) \<Rightarrow> string \<Rightarrow> string" where
  "rstrip_chars p s = rev (dropWhile p (rev s))"

definition strip_chars :: "(char \<Rightarrow> bool) \<Rightarrow> string \<Rightarrow> string" where
  "strip_chars p s = rstrip_chars p (dropWhile p s)"

definition strip :: "string \<Rightarrow> string" where
  \<comment> \<open>\<open>s.strip()\<close>\<close>
  "strip s = strip_chars is_space s"

definition is_dot :: "char \<Rightarrow> bool" where
  "is_dot c = (c = CHR ''.'')"

definition rstrip_dots :: "string \<Rightarrow> string" where
  \<comment> \<open>\<open>s.rstrip(".")\<close>\<close>
  "rstrip_dots s = rstrip_chars is_dot s"

definition strip_dots :: "string \<Rightarrow> string" where
  \<comment> \<open>\<open>s.strip(".")\<close>\<close>
  "strip_dots s = strip_chars is_dot s"

fun contains :: "string \<Rightarrow> string \<Rightarrow> bool" where
  \<comment> \<open>\<open>sub in s\<close>\<close>
  "contains sub [] = (sub = [])"
| "contains sub (c # cs) = (prefix sub (c # cs) \<or> contains sub cs)"

fun join :: "string \<Rightarrow> string list \<Rightarrow> string" where
  \<comment> \<open>\<open>sep.join(xs)\<close>\<close>
  "join sep [] = []"
| "join sep [x] = x"
| "join sep (x # y # ys) = x @ sep @ join sep (y # ys)"

fun str_nat :: "nat \<Rightarrow> string" where
  "str_nat n =
     (if n < 10 then [char_of (48 + n)]
      else str_nat (n div 10) @ [char_of (48 + n mod 10)])"

declare str_nat.simps [simp del]

definition str_int :: "int \<Rightarrow> string" where
  \<comment> \<open>\<open>str(i)\<close> of a Python int\<close>
  "str_int i = (if i < 0 then CHR ''-'' # str_nat (nat (- i)) else str_nat (nat i))"


section \<open>SHA-256 and \<open>_sha256_hex\<close>\<close>

text \<open>
  \<open>hashlib.sha256(b).hexdigest()\<close> is the SHA-256 of FIPS 180-4 over the bytes \<open>b\<close>, printed as
  64 lower-case hexadecimal digits. It is written out here on 32-bit words so that a digest
  can be computed inside the logic.
\<close>

type_synonym w32 = "32 word"

definition rotr :: "nat \<Rightarrow> w32 \<Rightarrow> w32" where
  "rotr n x = (drop_bit n x) OR (push_bit (32 - n) x)"

definition ch :: "w32 \<Rightarrow> w32 \<Rightarrow> w32 \<Rightarrow> w32" where
  "ch x y z = (x AND y) XOR (NOT x AND z)"

definition maj :: "w32 \<Rightarrow> w32 \<Rightarrow> w32 \<Rightarrow> w32" where
  "maj x y z = (x AND y) XOR (x AND z) XOR (y AND z)"

definition bsig0 :: "w32 \<Rightarrow> w32" where
  "bsig0 x = rotr 2 x XOR rotr 13 x XOR rotr 22 x"

definition bsig1 :: "w32 \<Rightarrow> w32" where
  "bsig1 x = rotr 6 x XOR rotr 11 x XOR rotr 25 x"

definition ssig0 :: "w32 \<Rightarrow> w32" where
  "ssig0 x = rotr 7 x XOR rotr 18 x XOR drop_bit 3 x"

definition ssig1 :: "w32 \<Rightarrow> w32" where
  "ssig1 x = rotr 17 x XOR rotr 19 x XOR drop_bit 10 x"

definition sha_k :: "w32 list" where
  "sha_k = [
  0x428A2F98, 0x71374491, 0xB5C0FBCF, 0xE9B5DBA5, 0x3956C25B, 0x59F111F1, 0x923F82A4, 0xAB1C5ED5,
  0xD807AA98, 0x12835B01, 0x243185BE, 0x550C7DC3, 0x72BE5D74, 0x80DEB1FE, 0x9BDC06A7, 0xC19BF174,
  0xE49B69C1, 0xEFBE4786, 0x0FC19DC6, 0x240CA1CC, 0x2DE92C6F, 0x4A7484AA, 0x5CB0A9DC, 0x76F988DA,
  0x983E5152, 0xA831C66D, 0xB00327C8, 0xBF597FC7, 0xC6E00BF3, 0xD5A79147, 0x06CA6351, 0x14292967,
  0x27B70A85, 0x2E1B2138, 0x4D2C6DFC, 0x53380D13, 0x650A7354, 0x766A0ABB, 0x81C2C92E, 0x92722C85,
  0xA2BFE8A1, 0xA81A664B, 0xC24B8B70, 0xC76C51A3, 0xD192E819, 0xD6990624, 0xF40E3585, 0x106AA070,
  0x19A4C116, 0x1E376C08, 0x2748774C, 0x34B0BCB5, 0x391C0CB3, 0x4ED8AA4A, 0x5B9CCA4F, 0x682E6FF3,
  0x748F82EE, 0x78A5636F, 0x84C87814, 0x8CC70208, 0x90BEFFFA, 0xA4506CEB, 0xBEF9A3F7, 0xC67178F2]"

definition sha_h0 :: "w32 list" where
  "sha_h0 = [0x6A09E667, 0xBB67AE85, 0x3C6EF372, 0xA54FF53A,
             0x510E527F, 0x9B05688C, 0x1F83D9AB, 0x5BE0CD19]"

definition next_w :: "w32 list \<Rightarrow> w32" where
  \<comment> \<open>the message schedule on a sliding window of the last 16 words\<close>
  "next_w w = ssig1 (w ! 14) + w ! 9 + ssig0 (w ! 1) + w ! 0"

fun mix :: "w32 list \<Rightarrow> w32 \<Rightarrow> w32 \<Rightarrow> w32 list" where
  "mix [a, b, c, d, e, f, g, h] t1 t2 = [t1 + t2, a, b, c, d + t1, e, f, g]"
| "mix s _ _ = s"

fun round :: "w32 list \<Rightarrow> w32 \<Rightarrow> w32 \<Rightarrow> w32 list" where
  "round [a, b, c, d, e, f, g, h] k w =
     mix [a, b, c, d, e, f, g, h] (h + bsig1 e + ch e f g + k + w) (bsig0 a + maj a b c)"
| "round s _ _ = s"

fun rounds :: "w32 list \<Rightarrow> w32 list \<Rightarrow> w32 list \<Rightarrow> w32 list" where
  "rounds [] w s = s"
| "rounds (k # ks) w s = rounds ks (tl w @ [next_w w]) (round s k (hd w))"

definition compress :: "w32 list \<Rightarrow> w32 list \<Rightarrow> w32 list" where
  "compress hs blk = map2 (+) hs (rounds sha_k blk hs)"

fun be32 :: "8 word list \<Rightarrow> w32 list" where
  "be32 (a # b # c # d # r) =
     (((ucast a * 256 + ucast b) * 256 + ucast c) * 256 + ucast d) # be32 r"
| "be32 _ = []"

fun be_bytes :: "nat \<Rightarrow> nat \<Rightarrow> 8 word list" where
  "be_bytes 0 v = []"
| "be_bytes (Suc n) v = be_bytes n (v div 256) @ [word_of_int (int (v mod 256))]"

definition pad :: "8 word list \<Rightarrow> 8 word list" where
  "pad m = m @ [128] @ replicate ((119 - length m mod 64) mod 64) 0 @ be_bytes 8 (8 * length m)"

fun blocks :: "nat \<Rightarrow> w32 list \<Rightarrow> w32 list list" where
  "blocks 0 ws = []"
| "blocks (Suc n) ws = take 16 ws # blocks n (drop 16 ws)"

definition sha256 :: "8 word list \<Rightarrow> w32 list" where
  "sha256 m = foldl compress sha_h0 (blocks (length (pad m) div 64) (be32 (pad m)))"

definition hex_chars :: string where
  "hex_chars = ''0123456789abcdef''"

definition hexdigit :: "nat \<Rightarrow> char" where
  "hexdigit n = hex_chars ! n"

definition hex_word :: "w32 \<Rightarrow> string" where
  "hex_word w =
     map (\<lambda>i. hexdigit (unat (drop_bit i w AND 15))) [28, 24, 20, 16, 12, 8, 4, 0]"

definition sha256_hex :: "string \<Rightarrow> string" where
  \<comment> \<open>\<open>_sha256_hex(s)\<close>: the string is already its UTF-8 bytes\<close>
  "sha256_hex s = concat (map hex_word (sha256 (map of_char s)))"


section \<open>The data model\<close>

text \<open>
  The dataclasses of the scanner. \<open>HTTPFingerprint\<close>, \<open>TLSFingerprint\<close> and
  \<open>WebSocketProbe\<close> each have fields \<open>ok\<close> and \<open>error\<close>; a record field is a constant, so
  these carry the owner's prefix here (\<open>http_ok\<close>, \<open>tls_error\<close>, \<open>ws_url\<close>, ...).
\<close>

record HTTPFingerprint =
  http_ok :: bool
  status :: "int option"
  final_url :: string
  final_host :: string
  content_type :: string
  server :: string
  via :: string
  cache :: string
  cf_ray :: string
  cf_cache_status :: string
  x_cache :: string
  x_served_by :: string
  x_amz_cf_pop :: string
  x_amz_cf_id :: string
  x_vercel_id :: string
  x_nf_request_id :: string
  http_error :: string

record TLSFingerprint =
  tls_ok :: bool
  alpn :: string
  sni :: string
  peer_ip :: string
  subject_cn :: string
  issuer_cn :: string
  san :: "string list"
  not_before :: string
  not_after :: string
  tls_error :: string

record WebSocketProbe =
  ws_url :: string
  ws_ok :: bool
  negotiated_subprotocol :: string
  ws_error :: string
  ms :: real

record DomainScanResult =
  domain :: string
  cname_chain :: "string list"
  http :: HTTPFingerprint
  tls :: TLSFingerprint
  websockets :: "WebSocketProbe list"
  signature :: string
  errors :: "string list"

definition HTTPFingerprint0 :: HTTPFingerprint where
  \<comment> \<open>\<open>HTTPFingerprint()\<close>: every field at its default\<close>
  "HTTPFingerprint0 =
     \<lparr>http_ok = False, status = None, final_url = [], final_host = [], content_type = [],
      server = [], via = [], cache = [], cf_ray = [], cf_cache_status = [], x_cache = [],
      x_served_by = [], x_amz_cf_pop = [], x_amz_cf_id = [], x_vercel_id = [],
      x_nf_request_id = [], http_error = []\<rparr>"

definition TLSFingerprint0 :: "string \<Rightarrow> TLSFingerprint" where
  \<comment> \<open>\<open>TLSFingerprint(sni=domain)\<close>\<close>
  "TLSFingerprint0 d =
     \<lparr>tls_ok = False, alpn = [], sni = d, peer_ip = [], subject_cn = [], issuer_cn = [],
      san = [], not_before = [], not_after = [], tls_error = []\<rparr>"


section \<open>The signature engine\<close>

definition compute_signature ::
  "string \<Rightarrow> string list \<Rightarrow> HTTPFingerprint \<Rightarrow> TLSFingerprint \<Rightarrow> string" where
  "compute_signature d chain h t =
     take 16 (sha256_hex (join ''|''
       [''cname='' @ (if chain \<noteq> [] then lower (last chain) else []),
        ''final_host='' @ final_host h,
        ''status='' @ (case status h of Some n \<Rightarrow> str_int n | None \<Rightarrow> []),
        ''content_type='' @ lower (content_type h),
        ''server='' @ lower (server h),
        ''via='' @ lower (via h),
        ''cache_control='' @ lower (cache h),
        ''x_cache='' @ lower (x_cache h),
        ''x_served_by='' @ lower (x_served_by h),
        ''issuer='' @ lower (issuer_cn t),
        ''alpn='' @ lower (alpn t)]))"

text \<open>
  \<open>str.lower()\<close> belongs to the standard library and works on the whole of Unicode.
  \<open>compute_signature_with\<close> is \<open>compute_signature\<close> with that function as its first
  argument, so that what is proved of it holds for every text; \<open>compute_signature\<close> above
  is its instance at \<open>lower\<close>, which is \<open>str.lower()\<close> on ASCII text.
\<close>

definition compute_signature_with ::
  "(string \<Rightarrow> string) \<Rightarrow> string \<Rightarrow> string list \<Rightarrow> HTTPFingerprint \<Rightarrow> TLSFingerprint \<Rightarrow> string" where
  "compute_signature_with lc d chain h t =
     take 16 (sha256_hex (join ''|''
       [''cname='' @ (if chain \<noteq> [] then lc (last chain) else []),
        ''final_host='' @ final_host h,
        ''status='' @ (case status h of Some n \<Rightarrow> str_int n | None \<Rightarrow> []),
        ''content_type='' @ lc (content_type h),
        ''server='' @ lc (server h),
        ''via='' @ lc (via h),
        ''cache_control='' @ lc (cache h),
        ''x_cache='' @ lc (x_cache h),
        ''x_served_by='' @ lc (x_served_by h),
        ''issuer='' @ lc (issuer_cn t),
        ''alpn='' @ lc (alpn t)]))"


section \<open>The DNS chain resolver\<close>

text \<open>
  \<open>r.resolve(cur, "CNAME")\<close> either raises or answers with the records found; the model
  keeps the records' targets (\<open>str(rr.target)\<close>) in order. The named exceptions are the ones
  the source lists; \<open>OtherException\<close> is its \<open>except Exception\<close>.
\<close>

datatype dns_exn = NoAnswer | NXDOMAIN | NoNameservers | Timeout | OtherException

type_synonym resolver = "string \<Rightarrow> dns_exn + string list"

text \<open>
  The \<open>for _ in range(10)\<close> loop of \<open>_do\<close>: the first argument counts the iterations left.
  An empty answer makes \<open>ans[0]\<close> raise, which the second \<open>try\<close> turns into \<open>break\<close>.
\<close>

fun cname_loop :: "resolver \<Rightarrow> nat \<Rightarrow> string \<Rightarrow> string set \<Rightarrow> string list \<Rightarrow> string list" where
  "cname_loop r 0 cur seen chain = chain"
| "cname_loop r (Suc n) cur seen chain =
     (if cur \<in> seen then chain
      else case r cur of
             Inl e \<Rightarrow> chain
           | Inr [] \<Rightarrow> chain
           | Inr (t # ts) \<Rightarrow>
               cname_loop r n (rstrip_dots t) (insert cur seen) (chain @ [rstrip_dots t]))"

text \<open>
  \<open>dns.resolver.Resolver()\<close> is built outside both \<open>try\<close> blocks: when it raises (no resolver
  configuration, say) the exception leaves \<open>resolve_cname_chain\<close>. \<open>Inl msg\<close> is that case,
  with \<open>msg = str(e)\<close>; \<open>Inr r\<close> is a resolver that was built.
\<close>

definition resolve_cname_chain :: "string + resolver \<Rightarrow> string \<Rightarrow> string + string list" where
  "resolve_cname_chain mk d =
     (case mk of
        Inl msg \<Rightarrow> Inl msg
      | Inr r \<Rightarrow> Inr (cname_loop r 10 (rstrip_dots d) {} []))"


section \<open>The HTTP prober\<close>

record http_response =
  resp_status :: int
  resp_url :: string
  resp_host :: "string option"
  resp_headers :: "(string \<times> string) list"
  resp_body_ok :: bool

datatype http_outcome = HttpRaised string | HttpResponded http_response

definition headers_get :: "(string \<times> string) list \<Rightarrow> string \<Rightarrow> string \<Rightarrow> string" where
  \<comment> \<open>\<open>resp.headers.get(key, default)\<close> on a case-insensitive multidict: the first value\<close>
  "headers_get hs key dflt =
     (case find (\<lambda>kv. lower (fst kv) = lower key) hs of
        None \<Rightarrow> dflt
      | Some kv \<Rightarrow> snd kv)"

text \<open>
  The session answers the GET of a URL with an exception (\<open>HttpRaised (str e)\<close>) or with a
  response. The body prefix is read after the headers are stored and its failure is
  swallowed, so \<open>resp_body_ok\<close> does not reach the fingerprint.
\<close>

definition fetch_http_fingerprint :: "(string \<Rightarrow> http_outcome) \<Rightarrow> string \<Rightarrow> HTTPFingerprint" where
  "fetch_http_fingerprint session d =
     (case session (''https://'' @ d @ ''/'') of
        HttpRaised e \<Rightarrow> HTTPFingerprint0\<lparr>http_error := e\<rparr>
      | HttpResponded resp \<Rightarrow>
          HTTPFingerprint0
            \<lparr>http_ok := True,
             status := Some (resp_status resp),
             final_url := resp_url resp,
             final_host := lower (case resp_host resp of None \<Rightarrow> [] | Some h \<Rightarrow> h),
             content_type := headers_get (resp_headers resp) ''content-type'' [],
             server := headers_get (resp_headers resp) ''server'' [],
             via := headers_get (resp_headers resp) ''via'' [],
             cache := headers_get (resp_headers resp) ''cache-control'' [],
             cf_ray := headers_get (resp_headers resp) ''cf-ray'' [],
             cf_cache_status := headers_get (resp_headers resp) ''cf-cache-status'' [],
             x_cache := headers_get (resp_headers resp) ''x-cache'' [],
             x_served_by := headers_get (resp_headers resp) ''x-served-by'' [],
             x_amz_cf_pop := headers_get (resp_headers resp) ''x-amz-cf-pop'' [],
             x_amz_cf_id := headers_get (resp_headers resp) ''x-amz-cf-id'' [],
             x_vercel_id := headers_get (resp_headers resp) ''x-vercel-id'' [],
             x_nf_request_id := headers_get (resp_headers resp) ''x-nf-request-id'' []\<rparr>)"


section \<open>The TLS prober\<close>

record peer_cert =
  subject :: "(string \<times> string) list list"
  issuer :: "(string \<times> string) list list"
  notBefore :: "string option"
  notAfter :: "string option"
  subjectAltName :: "(string \<times> string) list"

text \<open>
  What happened on the way to the certificate: \<open>getaddrinfo\<close> raised or returned nothing,
  \<open>connect\<close> or \<open>wrap_socket\<close> raised (the first address is known by then), or the
  handshake went through with the selected ALPN protocol and \<open>getpeercert()\<close>, which is
  \<open>None\<close> when the peer sent no certificate.
\<close>

datatype tls_outcome =
    AddrRaised string
  | AddrEmpty
  | ConnectRaised string string
  | HandshakeRaised string string
  | Handshaken string "string option" "peer_cert option"

definition get_cert_cn :: "(string \<times> string) list list \<Rightarrow> string" where
  \<comment> \<open>\<open>_get_cert_cn\<close>: the first attribute named \<open>commonName\<close>, in any case\<close>
  "get_cert_cn subj =
     (case find (\<lambda>kv. lower (fst kv) = ''commonname'') (concat subj) of
        None \<Rightarrow> []
      | Some kv \<Rightarrow> snd kv)"

definition none_has_no_get :: string where
  \<comment> \<open>\<open>str(e)\<close> of the \<open>AttributeError\<close> that \<open>cert.get\<close> raises when \<open>cert\<close> is \<open>None\<close>\<close>
  "none_has_no_get =
     [CHR 0x27] @ ''NoneType'' @ [CHR 0x27] @ '' object has no attribute ''
     @ [CHR 0x27] @ ''get'' @ [CHR 0x27]"

definition fetch_tls_fingerprint :: "string \<Rightarrow> tls_outcome \<Rightarrow> TLSFingerprint" where
  "fetch_tls_fingerprint d out =
     (case out of
        AddrRaised e \<Rightarrow> (TLSFingerprint0 d)\<lparr>tls_error := e\<rparr>
      | AddrEmpty \<Rightarrow> (TLSFingerprint0 d)\<lparr>tls_error := ''getaddrinfo returned no results''\<rparr>
      | ConnectRaised ip e \<Rightarrow> (TLSFingerprint0 d)\<lparr>peer_ip := ip, tls_error := e\<rparr>
      | HandshakeRaised ip e \<Rightarrow> (TLSFingerprint0 d)\<lparr>peer_ip := ip, tls_error := e\<rparr>
      | Handshaken ip proto None \<Rightarrow>
          (TLSFingerprint0 d)
            \<lparr>peer_ip := ip, tls_ok := True,
             alpn := (case proto of None \<Rightarrow> [] | Some p \<Rightarrow> p),
             tls_error := none_has_no_get\<rparr>
      | Handshaken ip proto (Some cert) \<Rightarrow>
          (TLSFingerprint0 d)
            \<lparr>peer_ip := ip, tls_ok := True,
             alpn := (case proto of None \<Rightarrow> [] | Some p \<Rightarrow> p),
             subject_cn := get_cert_cn (subject cert),
             issuer_cn := get_cert_cn (issuer cert),
             not_before := (case notBefore cert of None \<Rightarrow> [] | Some s \<Rightarrow> s),
             not_after := (case notAfter cert of None \<Rightarrow> [] | Some s \<Rightarrow> s),
             san := map snd (filter (\<lambda>kv. lower (fst kv) = ''dns'') (subjectAltName cert))\<rparr>)"


section \<open>The WebSocket prober\<close>

datatype ws_outcome = WsRaised string | WsConnected "string option"

record ws_attempt =
  ws_result :: ws_outcome
  t_start :: real
  t_end :: real

text \<open>
  The \<open>i\<close>-th handshake of a scan, to a URL, with the two readings of the loop's clock
  around it. The elapsed time is a Python float; it is a real number here.
\<close>

fun probe_websockets_from ::
  "(nat \<Rightarrow> string \<Rightarrow> ws_attempt) \<Rightarrow> string \<Rightarrow> nat \<Rightarrow> string list \<Rightarrow> WebSocketProbe list" where
  "probe_websockets_from session d i [] = []"
| "probe_websockets_from session d i (p # ps) =
     \<lparr>ws_url = ''wss://'' @ d @ (if prefix ''/'' p then p else ''/'' @ p),
      ws_ok = (case ws_result (session i (''wss://'' @ d @ (if prefix ''/'' p then p else ''/'' @ p))) of
                 WsRaised e \<Rightarrow> False | WsConnected proto \<Rightarrow> True),
      negotiated_subprotocol =
        (case ws_result (session i (''wss://'' @ d @ (if prefix ''/'' p then p else ''/'' @ p))) of
           WsRaised e \<Rightarrow> [] | WsConnected None \<Rightarrow> [] | WsConnected (Some proto) \<Rightarrow> proto),
      ws_error =
        (case ws_result (session i (''wss://'' @ d @ (if prefix ''/'' p then p else ''/'' @ p))) of
           WsRaised e \<Rightarrow> e | WsConnected proto \<Rightarrow> []),
      ms = (t_end (session i (''wss://'' @ d @ (if prefix ''/'' p then p else ''/'' @ p)))
            - t_start (session i (''wss://'' @ d @ (if prefix ''/'' p then p else ''/'' @ p)))) * 1000\<rparr>
     # probe_websockets_from session d (Suc i) ps"

definition probe_websockets ::
  "(nat \<Rightarrow> string \<Rightarrow> ws_attempt) \<Rightarrow> string \<Rightarrow> string list \<Rightarrow> WebSocketProbe list" where
  "probe_websockets session d paths = probe_websockets_from session d 0 paths"

definition ws_url_of :: "string \<Rightarrow> string \<Rightarrow> string" where
  \<comment> \<open>the URL the loop builds for a path: \<open>wss://{domain}{p}\<close>, with a leading slash added\<close>
  "ws_url_of d p = ''wss://'' @ d @ (if prefix ''/'' p then p else ''/'' @ p)"


section \<open>Scanning one domain\<close>

text \<open>What the network answers to the probes of one domain's scan.\<close>

record probes =
  dns :: "string + resolver"
  http_session :: "string \<Rightarrow> http_outcome"
  tls_net :: tls_outcome
  ws_session :: "nat \<Rightarrow> string \<Rightarrow> ws_attempt"

definition scan_dns :: "probes \<Rightarrow> string \<Rightarrow> DomainScanResult" where
  \<comment> \<open>the result as created, then the \<open>try\<close> around \<open>resolve_cname_chain\<close>\<close>
  "scan_dns env d =
     (case resolve_cname_chain (dns env) d of
        Inr c \<Rightarrow>
          \<lparr>domain = d, cname_chain = c, http = HTTPFingerprint0, tls = TLSFingerprint0 [],
           websockets = [], signature = [], errors = []\<rparr>
      | Inl e \<Rightarrow>
          \<lparr>domain = d, cname_chain = [], http = HTTPFingerprint0, tls = TLSFingerprint0 [],
           websockets = [], signature = [], errors = [''cname: '' @ e]\<rparr>)"

definition scan_http :: "probes \<Rightarrow> string \<Rightarrow> DomainScanResult \<Rightarrow> DomainScanResult" where
  "scan_http env d res =
     (if \<not> http_ok (fetch_http_fingerprint (http_session env) d)
         \<and> http_error (fetch_http_fingerprint (http_session env) d) \<noteq> []
      then res\<lparr>http := fetch_http_fingerprint (http_session env) d,
               errors := errors res @ [''http: '' @ http_error (fetch_http_fingerprint (http_session env) d)]\<rparr>
      else res\<lparr>http := fetch_http_fingerprint (http_session env) d\<rparr>)"

definition scan_tls :: "probes \<Rightarrow> string \<Rightarrow> DomainScanResult \<Rightarrow> DomainScanResult" where
  "scan_tls env d res =
     (if \<not> tls_ok (fetch_tls_fingerprint d (tls_net env))
         \<and> tls_error (fetch_tls_fingerprint d (tls_net env)) \<noteq> []
      then res\<lparr>tls := fetch_tls_fingerprint d (tls_net env),
               errors := errors res @ [''tls: '' @ tls_error (fetch_tls_fingerprint d (tls_net env))]\<rparr>
      else res\<lparr>tls := fetch_tls_fingerprint d (tls_net env)\<rparr>)"

definition scan_ws :: "probes \<Rightarrow> string \<Rightarrow> string list \<Rightarrow> DomainScanResult \<Rightarrow> DomainScanResult" where
  "scan_ws env d ws_paths res =
     (if ws_paths \<noteq> [] then res\<lparr>websockets := probe_websockets (ws_session env) d ws_paths\<rparr>
      else res)"

definition scan_sign :: "string \<Rightarrow> DomainScanResult \<Rightarrow> DomainScanResult" where
  "scan_sign d res = res\<lparr>signature := compute_signature d (cname_chain res) (http res) (tls res)\<rparr>"

definition scan_domain :: "probes \<Rightarrow> string \<Rightarrow> string list \<Rightarrow> DomainScanResult" where
  \<comment> \<open>the body under \<open>async with sem\<close>, statement by statement\<close>
  "scan_domain env d ws_paths =
     scan_sign d (scan_ws env d ws_paths (scan_tls env d (scan_http env d (scan_dns env d))))"


section \<open>Grouping by signature\<close>

fun setdefault_append :: "(string \<times> 'a list) list \<Rightarrow> string \<Rightarrow> 'a \<Rightarrow> (string \<times> 'a list) list" where
  \<comment> \<open>\<open>groups.setdefault(k, []).append(v)\<close> on a dict, kept as its items in insertion order\<close>
  "setdefault_append [] k v = [(k, [v])]"
| "setdefault_append ((k', vs) # g) k v =
     (if k' = k then (k', vs @ [v]) # g else (k', vs) # setdefault_append g k v)"

definition sorted_reverse :: "('a \<Rightarrow> nat) \<Rightarrow> 'a list \<Rightarrow> 'a list" where
  \<comment> \<open>\<open>sorted(xs, key=f, reverse=True)\<close>: the list is reversed, sorted stably, and reversed\<close>
  "sorted_reverse f xs = rev (sort_key f (rev xs))"

definition group_items :: "DomainScanResult list \<Rightarrow> (string \<times> DomainScanResult list) list" where
  \<comment> \<open>\<open>groups.items()\<close> after the loop\<close>
  "group_items results = foldl (\<lambda>g r. setdefault_append g (signature r) r) [] results"

definition group_by_signature ::
  "DomainScanResult list \<Rightarrow> (string \<times> DomainScanResult list) list" where
  "group_by_signature results = sorted_reverse (\<lambda>kv. length (snd kv)) (group_items results)"


section \<open>Reading the domain file\<close>

datatype py_exn = ValueError string | RuntimeError string | OSError string

text \<open>
  \<open>urlparse(s).hostname\<close> belongs to the standard library; \<open>_norm_domain\<close> takes it as its
  first argument: \<open>Inl e\<close> when it raises, \<open>Inr None\<close> for no host name.
\<close>

definition strip_port :: "string \<Rightarrow> string" where
  \<comment> \<open>\<open>if ":" in s and s.count(":") == 1: s = s.split(":", 1)[0]\<close>\<close>
  "strip_port s =
     (if count_list s CHR '':'' = 1 then takeWhile (\<lambda>c. c \<noteq> CHR '':'') s else s)"

definition norm_domain ::
  "(string \<Rightarrow> py_exn + string option) \<Rightarrow> string \<Rightarrow> py_exn + string option" where
  "norm_domain hostname_of line =
     (if strip line = [] \<or> prefix ''#'' (strip line) then Inr None
      else if contains ''://'' (strip line) then
        (case hostname_of (strip line) of
           Inl e \<Rightarrow> Inl e
         | Inr None \<Rightarrow> Inr None
         | Inr (Some host) \<Rightarrow>
             if host = [] then Inr None else Inr (Some (lower (strip_dots host))))
      else
        (if lower (strip_dots (strip_port (takeWhile (\<lambda>c. c \<noteq> CHR ''/'') (strip line)))) = []
         then Inr None
         else Inr (Some (lower (strip_dots (strip_port (takeWhile (\<lambda>c. c \<noteq> CHR ''/'') (strip line))))))))"


text \<open>
  A model of \<open>urlparse(s).hostname\<close> as CPython's \<open>urllib.parse\<close> computes it on ASCII text:
  leading control characters and spaces go, then tabs and newlines anywhere; a scheme is
  split off when the text before the first colon starts with a letter and has scheme
  characters only; the network location is what follows \<open>//\<close> up to the first of
  \<open>/ ? #\<close>; a location with one square bracket and not the other raises
  \<open>ValueError("Invalid IPv6 URL")\<close>. The host name is the text after the last \<open>@\<close>, taken
  between the brackets when there is one and up to the first colon otherwise, in lower case
  up to a \<open>%\<close>. Later releases also validate the text between the brackets; that check is
  left out, so the model serves where no bracket pair occurs.
\<close>

definition is_alpha :: "char \<Rightarrow> bool" where
  "is_alpha c = ((65 \<le> (of_char c :: nat) \<and> (of_char c :: nat) \<le> 90)
               \<or> (97 \<le> (of_char c :: nat) \<and> (of_char c :: nat) \<le> 122))"

definition is_scheme_char :: "char \<Rightarrow> bool" where
  "is_scheme_char c = (is_alpha c \<or> (48 \<le> (of_char c :: nat) \<and> (of_char c :: nat) \<le> 57)
                       \<or> c \<in> {CHR ''+'', CHR ''-'', CHR ''.''})"

definition drop_scheme :: "string \<Rightarrow> string" where
  "drop_scheme url =
     (if CHR '':'' \<in> set url \<and> takeWhile (\<lambda>c. c \<noteq> CHR '':'') url \<noteq> []
         \<and> is_alpha (hd url) \<and> list_all is_scheme_char (takeWhile (\<lambda>c. c \<noteq> CHR '':'') url)
      then tl (dropWhile (\<lambda>c. c \<noteq> CHR '':'') url) else url)"

definition url_clean :: "string \<Rightarrow> string" where
  "url_clean url =
     filter (\<lambda>c. (of_char c :: nat) \<notin> {9, 10, 13}) (dropWhile (\<lambda>c. (of_char c :: nat) \<le> 32) url)"

definition urlsplit_netloc :: "string \<Rightarrow> py_exn + string" where
  "urlsplit_netloc url =
     (if take 2 (drop_scheme (url_clean url)) = ''//'' then
        (if (CHR ''['' \<in> set (takeWhile (\<lambda>c. c \<notin> {CHR ''/'', CHR ''?'', CHR ''#''}) (drop 2 (drop_scheme (url_clean url))))) \<noteq>
            (CHR '']'' \<in> set (takeWhile (\<lambda>c. c \<notin> {CHR ''/'', CHR ''?'', CHR ''#''}) (drop 2 (drop_scheme (url_clean url)))))
         then Inl (ValueError ''Invalid IPv6 URL'')
         else Inr (takeWhile (\<lambda>c. c \<notin> {CHR ''/'', CHR ''?'', CHR ''#''}) (drop 2 (drop_scheme (url_clean url)))))
      else Inr [])"

definition after_last_at :: "string \<Rightarrow> string" where
  \<comment> \<open>\<open>netloc.rpartition("@")[2]\<close>\<close>
  "after_last_at s = rev (takeWhile (\<lambda>c. c \<noteq> CHR ''@'') (rev s))"

definition hostinfo_host :: "string \<Rightarrow> string" where
  "hostinfo_host s =
     (if CHR ''['' \<in> set s
      then takeWhile (\<lambda>c. c \<noteq> CHR '']'') (tl (dropWhile (\<lambda>c. c \<noteq> CHR ''['') s))
      else takeWhile (\<lambda>c. c \<noteq> CHR '':'') s)"

definition urlparse_hostname :: "string \<Rightarrow> py_exn + string option" where
  "urlparse_hostname url =
     (case urlsplit_netloc url of
        Inl e \<Rightarrow> Inl e
      | Inr netloc \<Rightarrow>
          if hostinfo_host (after_last_at netloc) = [] then Inr None
          else Inr (Some (lower (takeWhile (\<lambda>c. c \<noteq> CHR ''%'') (hostinfo_host (after_last_at netloc)))
                          @ dropWhile (\<lambda>c. c \<noteq> CHR ''%'') (hostinfo_host (after_last_at netloc)))))"

fun read_lines :: "(string \<Rightarrow> py_exn + string option) \<Rightarrow> string list \<Rightarrow> py_exn + string list" where
  \<comment> \<open>the loop of \<open>read_domains\<close>: an exception of \<open>_norm_domain\<close> ends it\<close>
  "read_lines hn [] = Inr []"
| "read_lines hn (l # ls) =
     (case norm_domain hn l of
        Inl e \<Rightarrow> Inl e
      | Inr None \<Rightarrow> read_lines hn ls
      | Inr (Some d) \<Rightarrow>
          (case read_lines hn ls of
             Inl e \<Rightarrow> Inl e
           | Inr ds \<Rightarrow> Inr (if d \<noteq> [] then d # ds else ds)))"

definition read_domains ::
  "(string \<Rightarrow> py_exn + string option) \<Rightarrow> py_exn + string list \<Rightarrow> py_exn + string list" where
  \<comment> \<open>the second argument is the file: \<open>open\<close> raised, or its lines\<close>
  "read_domains hn file = (case file of Inl e \<Rightarrow> Inl e | Inr ls \<Rightarrow> read_lines hn ls)"


section \<open>The scan operation\<close>

datatype 'a outcome = Returns 'a | Raises py_exn | SystemExit int | Hangs

record args =
  cmd :: string
  concurrency :: int
  ws :: bool
  ws_paths :: "string list"
  jsonl :: string
  summary :: string
  top_n :: int
  show_domains :: int
  quiet :: bool
  progress :: int

text \<open>
  What a run meets outside the program: the domain file, the URL parser, the network as
  each task (one per domain, by position) sees it, the moment each task completes, and
  whether writing the two output files raises.
\<close>

record world =
  domains_file :: "py_exn + string list"
  hostname_of :: "string \<Rightarrow> py_exn + string option"
  task_probes :: "nat \<Rightarrow> probes"
  finished_at :: "nat \<Rightarrow> nat"
  jsonl_write :: "py_exn option"
  summary_write :: "py_exn option"

definition default_ws_paths :: "string list" where
  "default_ws_paths = [''/'', ''/ws'', ''/websocket'', ''/socket.io/?EIO=4&transport=websocket'']"

definition default_concurrency :: int where
  \<comment> \<open>\<open>--concurrency\<close>, \<open>type=int, default=50\<close>\<close>
  "default_concurrency = 50"

definition scan_paths :: "args \<Rightarrow> string list" where
  "scan_paths a = (if ws a then (if ws_paths a \<noteq> [] then ws_paths a else default_ws_paths) else [])"

definition scan_results :: "args \<Rightarrow> world \<Rightarrow> string list \<Rightarrow> DomainScanResult list" where
  \<comment> \<open>the results in the order \<open>asyncio.as_completed\<close> hands them over\<close>
  "scan_results a w domains =
     map (\<lambda>i. scan_domain (task_probes w i) (domains ! i) (scan_paths a))
         (sort_key (finished_at w) [0..<length domains])"

text \<open>
  \<open>scan_action\<close> returns the exit status together with the results it gathered. The
  semaphore is \<open>asyncio.Semaphore(args.concurrency)\<close>: a negative value raises
  \<open>ValueError\<close>, and with the value 0 no task ever enters its body, so the first
  \<open>await\<close> of the collecting loop never returns. Printing is left out.
\<close>

definition scan_action :: "args \<Rightarrow> world \<Rightarrow> (int \<times> DomainScanResult list) outcome" where
  "scan_action a w =
     (case read_domains (hostname_of w) (domains_file w) of
        Inl e \<Rightarrow> Raises e
      | Inr domains \<Rightarrow>
          if domains = [] then Returns (2, [])
          else if concurrency a < 0 then Raises (ValueError ''Semaphore initial value must be >= 0'')
          else if concurrency a = 0 then Hangs
          else
            (case (if jsonl a \<noteq> [] then jsonl_write w else None) of
               Some e \<Rightarrow> Raises e
             | None \<Rightarrow>
                 (case (if summary a \<noteq> [] then summary_write w else None) of
                    Some e \<Rightarrow> Raises e
                  | None \<Rightarrow> Returns (0, scan_results a w domains))))"

text \<open>
  \<open>build_parser().parse_args(argv)\<close> either yields the arguments or reports the error and
  raises \<open>SystemExit(2)\<close>, the status \<open>argparse\<close> uses for every command-line error.
\<close>

datatype parsed = ParseError | Parsed args

definition argparse_error_status :: int where
  "argparse_error_status = 2"

definition main :: "parsed \<Rightarrow> world \<Rightarrow> (int \<times> DomainScanResult list) outcome" where
  "main p w =
     (case p of
        ParseError \<Rightarrow> SystemExit argparse_error_status
      | Parsed a \<Rightarrow>
          if cmd a = ''scan'' then scan_action a w
          else Raises (RuntimeError (''unknown cmd: '' @ cmd a)))"

definition exit_status :: "(int \<times> DomainScanResult list) outcome \<Rightarrow> int option" where
  \<comment> \<open>\<open>raise SystemExit(main(sys.argv[1:]))\<close>: an uncaught exception ends the process with 1\<close>
  "exit_status out =
     (case out of
        Returns r \<Rightarrow> Some (fst r)
      | SystemExit n \<Rightarrow> Some n
      | Raises e \<Rightarrow> Some 1
      | Hangs \<Rightarrow> None)"


section \<open>The orchestrator's schedule\<close>

text \<open>
  Every domain gets a task. A task waits at \<open>async with sem\<close>, runs its four probes and the
  signature while it holds the semaphore, and releases it on leaving the block.
  \<open>Running k\<close> is a task inside the block with \<open>k\<close> probes behind it. The steps interleave
  freely: any waiting task may enter when the semaphore's value is positive, any running
  task may advance or leave.
\<close>

datatype task = Waiting | Running nat | Done

record orch =
  sem_value :: nat
  tasks :: "task list"

definition orch_init :: "int \<Rightarrow> nat \<Rightarrow> orch" where
  \<comment> \<open>\<open>asyncio.Semaphore(args.concurrency)\<close> and one task per domain\<close>
  "orch_init c n = \<lparr>sem_value = nat c, tasks = replicate n Waiting\<rparr>"

inductive orch_step :: "orch \<Rightarrow> orch \<Rightarrow> bool" where
  acquire:
    "i < length (tasks s) \<Longrightarrow> tasks s ! i = Waiting \<Longrightarrow> 0 < sem_value s \<Longrightarrow>
     orch_step s (s\<lparr>sem_value := sem_value s - 1, tasks := (tasks s)[i := Running 0]\<rparr>)"
| probe:
    "i < length (tasks s) \<Longrightarrow> tasks s ! i = Running k \<Longrightarrow> k < 4 \<Longrightarrow>
     orch_step s (s\<lparr>tasks := (tasks s)[i := Running (Suc k)]\<rparr>)"
| release:
    "i < length (tasks s) \<Longrightarrow> tasks s ! i = Running 4 \<Longrightarrow>
     orch_step s (s\<lparr>sem_value := sem_value s + 1, tasks := (tasks s)[i := Done]\<rparr>)"

definition is_running :: "task \<Rightarrow> bool" where
  "is_running t = (case t of Running k \<Rightarrow> True | _ \<Rightarrow> False)"

definition in_flight :: "orch \<Rightarrow> nat" where
  "in_flight s = length (filter is_running (tasks s))"


section \<open>The specification's wording\<close>

text \<open>
  The digest as the specification describes it: the first 16 hexadecimal characters of
  the hash of the pipe-joined, labelled fields, every field in lower case. The first
  argument is the lowering function (\<open>str.lower()\<close>), the second is what happens to the
  final host, so that the source's treatment of it (nothing) can be told apart from the
  specification's (lowering).
\<close>

definition terminal_cname :: "string list \<Rightarrow> string" where
  "terminal_cname chain = (if chain = [] then [] else last chain)"

definition spec_signature ::
  "(string \<Rightarrow> string) \<Rightarrow> (string \<Rightarrow> string) \<Rightarrow> string list \<Rightarrow> HTTPFingerprint \<Rightarrow> TLSFingerprint
     \<Rightarrow> string" where
  "spec_signature lc host_case chain h t =
     take 16 (sha256_hex (join ''|'' (map2 (\<lambda>label v. label @ ''='' @ v)
       [''cname'', ''final_host'', ''status'', ''content_type'', ''server'', ''via'',
        ''cache_control'', ''x_cache'', ''x_served_by'', ''issuer'', ''alpn'']
       [lc (terminal_cname chain), host_case (final_host h),
        lc (case status h of None \<Rightarrow> [] | Some n \<Rightarrow> str_int n),
        lc (content_type h), lc (server h), lc (via h), lc (cache h),
        lc (x_cache h), lc (x_served_by h), lc (issuer_cn t), lc (alpn t)])))"

text \<open>
  A walk of the resolver: each name of the list but the last resolves, and its first
  target, trailing dots stripped, is the next name.
\<close>

fun resolves_along :: "resolver \<Rightarrow> string list \<Rightarrow> bool" where
  "resolves_along r [] = True"
| "resolves_along r [a] = True"
| "resolves_along r (a # b # ns) =
     ((case r a of Inl e \<Rightarrow> False | Inr [] \<Rightarrow> False | Inr (t # ts) \<Rightarrow> rstrip_dots t = b)
      \<and> resolves_along r (b # ns))"

definition is_hex :: "string \<Rightarrow> bool" where
  "is_hex s = (set s \<subseteq> set hex_chars)"

text \<open>Where a signature first occurs in a list of results.\<close>

definition first_index :: "string \<Rightarrow> DomainScanResult list \<Rightarrow> nat" where
  "first_index s rs = length (takeWhile (\<lambda>r. signature r \<noteq> s) rs)"

text \<open>The two sides of "exactly one of (success with status) or (error)".\<close>

definition http_success :: "HTTPFingerprint \<Rightarrow> bool" where
  "http_success fp = (http_ok fp \<and> status fp \<noteq> None)"

definition http_failure :: "HTTPFingerprint \<Rightarrow> bool" where
  "http_failure fp = (http_error fp \<noteq> [])"


section \<open>Sample inputs\<close>

definition sample_response :: http_response where
  "sample_response =
     \<lparr>resp_status = 200, resp_url = ''https://a.example/'', resp_host = Some ''A.example'',
      resp_headers = [(''Server'', ''nginx''), (''Content-Type'', ''text/html'')],
      resp_body_ok = False\<rparr>"

definition sample_cert :: peer_cert where
  "sample_cert =
     \<lparr>subject = [[(''commonName'', ''a.example'')]],
      issuer = [[(''countryName'', ''US'')], [(''commonName'', ''R3'')]],
      notBefore = Some ''Jan  1 00:00:00 2026 GMT'', notAfter = None,
      subjectAltName = [(''DNS'', ''a.example''), (''IP Address'', ''192.0.2.1'')]\<rparr>"

definition sample_ws :: "nat \<Rightarrow> string \<Rightarrow> ws_attempt" where
  "sample_ws i url = \<lparr>ws_result = WsRaised ''403'', t_start = 1, t_end = 3 / 2\<rparr>"

definition chain_resolver :: resolver where
  "chain_resolver x =
     (if x = ''a.example'' then Inr [''b.example.'', ''other.example.'']
      else if x = ''b.example'' then Inr [''c.example'']
      else Inl Timeout)"

definition cycle_resolver :: resolver where
  "cycle_resolver x =
     (if x = ''a.example'' then Inr [''b.example.'']
      else if x = ''b.example'' then Inr [''c.example.'']
      else if x = ''c.example'' then Inr [''b.example.'']
      else Inl NXDOMAIN)"


definition sample_probes :: probes where
  "sample_probes =
     \<lparr>dns = Inr (\<lambda>name. Inl Timeout),
      http_session = (\<lambda>url. HttpResponded sample_response),
      tls_net = Handshaken ''192.0.2.1'' (Some ''h2'') (Some sample_cert),
      ws_session = sample_ws\<rparr>"

definition sample_args :: args where
  "sample_args =
     \<lparr>cmd = ''scan'', concurrency = 50, ws = False, ws_paths = [], jsonl = [], summary = [],
      top_n = 25, show_domains = 0, quiet = False, progress = 0\<rparr>"

definition sample_world :: world where
  "sample_world =
     \<lparr>domains_file = Inr [''# only a comment'', ''   ''],
      hostname_of = urlparse_hostname,
      task_probes = (\<lambda>i. sample_probes),
      finished_at = (\<lambda>i. i),
      jsonl_write = None,
      summary_write = None\<rparr>"

definition sample_result :: "string \<Rightarrow> string \<Rightarrow> DomainScanResult" where
  "sample_result d s =
     \<lparr>domain = d, cname_chain = [], http = HTTPFingerprint0, tls = TLSFingerprint0 d,
      websockets = [], signature = s, errors = []\<rparr>"

section \<open>Facts about strings and the hash\<close>

lemma lower_char_idem: "lower_char (lower_char c) = lower_char c"
  by (auto simp: lower_char_def)

lemma lower_idem: "lower (lower s) = lower s"
  by (simp add: lower_def lower_char_idem)

lemma lower_Nil: "lower [] = []"
  by (simp add: lower_def)

lemma lower_char_digit: "n < 10 \<Longrightarrow> lower_char (char_of (48 + n :: nat)) = char_of (48 + n)"
  by (simp add: lower_char_def)

lemma lower_str_nat: "lower (str_nat n) = str_nat n"
proof (induction n rule: str_nat.induct)
  case (1 n)
  show ?case
  proof (cases "n < 10")
    case True
    then show ?thesis
      by (subst (1 2) str_nat.simps) (simp add: lower_def lower_char_digit)
  next
    case False
    then have "lower (str_nat (n div 10)) = str_nat (n div 10)"
      using 1 by simp
    moreover have "lower_char (char_of (48 + n mod 10)) = char_of (48 + n mod 10)"
      by (rule lower_char_digit) simp
    ultimately show ?thesis
      using False by (subst (1 2) str_nat.simps) (simp add: lower_def)
  qed
qed

lemma lower_str_int: "lower (str_int i) = str_int i"
  using lower_str_nat [of "nat i"] lower_str_nat [of "nat (- i)"]
  by (simp add: str_int_def lower_def lower_char_def)

lemma length_mix: "length (mix s a b) = length s"
  by (induction s a b rule: mix.induct) simp_all

lemma length_round: "length (round s k w) = length s"
  by (induction s k w rule: round.induct) (simp_all add: length_mix del: mix.simps)

lemma length_rounds: "length (rounds ks w s) = length s"
  by (induction ks arbitrary: w s) (simp_all add: length_round)

lemma length_compress: "length (compress hs blk) = length hs"
  by (simp add: compress_def length_rounds)

lemma length_foldl_compress: "length (foldl compress hs bs) = length hs"
  by (induction bs arbitrary: hs) (simp_all add: length_compress)

lemma length_sha256: "length (sha256 m) = 8"
  by (simp add: sha256_def length_foldl_compress sha_h0_def)

lemma length_concat_hex: "length (concat (map hex_word xs)) = 8 * length xs"
  by (induction xs) (simp_all add: hex_word_def)

lemma length_sha256_hex: "length (sha256_hex s) = 64"
  by (simp add: sha256_hex_def length_concat_hex length_sha256)

lemma nibble_less: "unat (x AND 15 :: w32) < 16"
proof -
  have "x AND 15 \<le> 15" by (rule word_and_le1)
  then have "unat (x AND 15) \<le> unat (15 :: w32)" by (simp add: word_le_nat_alt)
  then show ?thesis by simp
qed

lemma hexdigit_hex: "n < 16 \<Longrightarrow> hexdigit n \<in> set hex_chars"
  unfolding hexdigit_def by (rule nth_mem) (simp add: hex_chars_def)

lemma is_hex_hex_word: "set (hex_word w) \<subseteq> set hex_chars"
  by (simp add: hex_word_def hexdigit_hex nibble_less)

lemma is_hex_sha256_hex: "is_hex (sha256_hex s)"
  unfolding is_hex_def sha256_hex_def using is_hex_hex_word by auto

lemma final_host_lower:
  "lower (final_host (fetch_http_fingerprint session d)) = final_host (fetch_http_fingerprint session d)"
  by (cases "session (''https://'' @ d @ ''/'')")
     (simp_all add: fetch_http_fingerprint_def HTTPFingerprint0_def lower_idem lower_Nil)


section \<open>The signature is a function of the fixed field set\<close>

text \<open>
  Claim C1. Two calls of \<open>compute_signature\<close> whose inputs agree on the terminal element of
  the CNAME chain, the final host, the HTTP status, the content type, the server, via,
  cache-control, x-cache and x-served-by headers, the TLS issuer common name and the
  negotiated ALPN return the same digest, whatever the domain argument, the earlier chain
  elements and every other field are. WebSocket results and timings are no argument of
  the function at all.
\<close>

theorem compute_signature_noninterference:
  assumes "(c1 = [] \<and> c2 = []) \<or> (c1 \<noteq> [] \<and> c2 \<noteq> [] \<and> last c1 = last c2)"
    and "final_host h1 = final_host h2"
    and "status h1 = status h2"
    and "content_type h1 = content_type h2"
    and "server h1 = server h2"
    and "via h1 = via h2"
    and "cache h1 = cache h2"
    and "x_cache h1 = x_cache h2"
    and "x_served_by h1 = x_served_by h2"
    and "issuer_cn t1 = issuer_cn t2"
    and "alpn t1 = alpn t2"
  shows "compute_signature d1 c1 h1 t1 = compute_signature d2 c2 h2 t2"
  using assms by (auto simp: compute_signature_def)


theorem compute_signature_noninterference_witness:
  "''a.example'' \<noteq> ''b.example''
   \<and> compute_signature ''a.example'' [''x.cdn.example'', ''edge.cdn.example'']
         (HTTPFingerprint0\<lparr>server := ''nginx'', cf_ray := ''1''\<rparr>) (TLSFingerprint0 ''a.example'')
     = compute_signature ''b.example'' [''edge.cdn.example'']
         (HTTPFingerprint0\<lparr>server := ''nginx'', cf_ray := ''2''\<rparr>)
         ((TLSFingerprint0 ''b.example'')\<lparr>subject_cn := ''b.example''\<rparr>)"
proof
  show "''a.example'' \<noteq> ''b.example''" by simp
  show "compute_signature ''a.example'' [''x.cdn.example'', ''edge.cdn.example'']
         (HTTPFingerprint0\<lparr>server := ''nginx'', cf_ray := ''1''\<rparr>) (TLSFingerprint0 ''a.example'')
     = compute_signature ''b.example'' [''edge.cdn.example'']
         (HTTPFingerprint0\<lparr>server := ''nginx'', cf_ray := ''2''\<rparr>)
         ((TLSFingerprint0 ''b.example'')\<lparr>subject_cn := ''b.example''\<rparr>)"
    by (rule compute_signature_noninterference)
       (simp_all add: HTTPFingerprint0_def TLSFingerprint0_def)
qed



section \<open>The CNAME chain\<close>

lemma cname_loop_fail: "r cur = Inl e \<Longrightarrow> cname_loop r n cur seen chain = chain"
  by (cases n) simp_all

lemma cname_loop_inv:
  "distinct pre \<Longrightarrow> seen = set pre \<Longrightarrow> length chain + n \<le> 10 \<Longrightarrow> pre @ [cur] = d0 # chain \<Longrightarrow>
   length (cname_loop r n cur seen chain) \<le> 10
   \<and> distinct (butlast (d0 # cname_loop r n cur seen chain))"
proof (induction n arbitrary: pre cur seen chain)
  case 0
  have "butlast (d0 # chain) = pre"
    using 0(4) [symmetric] by simp
  then show ?case using 0 by simp
next
  case (Suc n)
  have "butlast (d0 # chain) = pre"
    using Suc.prems(4) [symmetric] by simp
  then have base: "length chain \<le> 10 \<and> distinct (butlast (d0 # chain))"
    using Suc.prems by simp
  show ?case
  proof (cases "cur \<in> seen")
    case True
    then show ?thesis using base by simp
  next
    case False
    show ?thesis
    proof (cases "r cur")
      case (Inl e)
      then show ?thesis using base False by simp
    next
      case (Inr ts)
      show ?thesis
      proof (cases ts)
        case Nil
        then show ?thesis using base False Inr by simp
      next
        case (Cons t ts')
        have "length (cname_loop r n (rstrip_dots t) (insert cur seen) (chain @ [rstrip_dots t])) \<le> 10
          \<and> distinct (butlast (d0 # cname_loop r n (rstrip_dots t) (insert cur seen) (chain @ [rstrip_dots t])))"
        proof (rule Suc.IH [of "pre @ [cur]"])
          show "distinct (pre @ [cur])" using Suc.prems(1,2) False by simp
          show "insert cur seen = set (pre @ [cur])" using Suc.prems(2) by simp
          show "length (chain @ [rstrip_dots t]) + n \<le> 10" using Suc.prems by simp
          show "(pre @ [cur]) @ [rstrip_dots t] = d0 # chain @ [rstrip_dots t]"
            using Suc.prems by simp
        qed
        then show ?thesis using False Inr Cons by simp
      qed
    qed
  qed
qed

lemma cycle_step:
  assumes "r a = Inr [b]" "r b = Inr [a]" "a \<noteq> b" "rstrip_dots a = a" "rstrip_dots b = b"
  shows "cname_loop r (Suc (Suc (Suc n))) a {} [] = [b, a]"
  using assms by simp

lemma cycle_chain: "resolve_cname_chain (Inr cycle_resolver) ''a.example'' = Inr [''b.example'', ''c.example'', ''b.example'']"
  by code_simp


text \<open>
  Claim C3, amended. For every resolver and every domain the chain has at most 10 entries,
  and the names that were resolved, which are the origin and every chain entry but the
  last, are pairwise distinct; the last entry alone may repeat an earlier name. The cycle
  \<open>a \<rightarrow> b \<rightarrow> a\<close> gives the chain \<open>[b, a]\<close>, two entries with no repeat.
\<close>

theorem resolve_cname_chain_bounded:
  "(resolve_cname_chain mk d = Inr chain \<longrightarrow>
      length chain \<le> 10 \<and> distinct (rstrip_dots d # butlast chain))
   \<and> (r a = Inr [b] \<and> r b = Inr [a] \<and> a \<noteq> b \<and> rstrip_dots a = a \<and> rstrip_dots b = b \<longrightarrow>
      resolve_cname_chain (Inr r) a = Inr [b, a])"
proof (intro conjI impI)
  assume h: "resolve_cname_chain mk d = Inr chain"
  then obtain r' where mk: "mk = Inr r'" and c: "chain = cname_loop r' 10 (rstrip_dots d) {} []"
    by (cases mk) (auto simp: resolve_cname_chain_def)
  have inv: "length chain \<le> 10 \<and> distinct (butlast (rstrip_dots d # chain))"
    unfolding c by (rule cname_loop_inv [of "[]"]) simp_all
  then show "length chain \<le> 10" by simp
  show "distinct (rstrip_dots d # butlast chain)"
    using inv by (cases "chain = []") simp_all
next
  assume h: "r a = Inr [b] \<and> r b = Inr [a] \<and> a \<noteq> b \<and> rstrip_dots a = a \<and> rstrip_dots b = b"
  then have "cname_loop r (Suc (Suc (Suc 7))) a {} [] = [b, a]"
    by (intro cycle_step) simp_all
  moreover have "Suc (Suc (Suc 7)) = (10::nat)" by simp
  ultimately show "resolve_cname_chain (Inr r) a = Inr [b, a]"
    using h by (simp add: resolve_cname_chain_def)
qed


text \<open>
  The chain itself can repeat a host name: with \<open>a \<rightarrow> b \<rightarrow> c \<rightarrow> b\<close> the target \<open>b\<close> is appended
  a second time before the visited set is consulted.
\<close>

theorem resolve_cname_chain_repeat_counterexample:
  "resolve_cname_chain (Inr cycle_resolver) ''a.example''
     = Inr [''b.example'', ''c.example'', ''b.example'']
   \<and> \<not> distinct [''b.example'', ''c.example'', ''b.example'']"
  using cycle_chain by simp

theorem resolve_cname_chain_bounded_witness:
  "resolve_cname_chain (Inr cycle_resolver) ''a.example''
     = Inr [''b.example'', ''c.example'', ''b.example'']
   \<and> length [''b.example'', ''c.example'', ''b.example''] \<le> 10
   \<and> distinct [''a.example'', ''b.example'', ''c.example'']
   \<and> resolve_cname_chain (Inr (\<lambda>x. if x = ''a'' then Inr [''b''] else Inr [''a''])) ''a''
       = Inr [''b'', ''a'']"
proof -
  have c: "resolve_cname_chain (Inr cycle_resolver) ''a.example''
     = Inr [''b.example'', ''c.example'', ''b.example'']"
    by (rule cycle_chain)
  have s: "rstrip_dots ''a'' = ''a''" "rstrip_dots ''b'' = ''b''" "rstrip_dots ''a.example'' = ''a.example''"
    by (simp_all add: rstrip_dots_def rstrip_chars_def is_dot_def)
  show ?thesis
    using c s
      resolve_cname_chain_bounded [of "Inr cycle_resolver" "''a.example''"
        "[''b.example'', ''c.example'', ''b.example'']"
        "\<lambda>x. if x = ''a'' then Inr [''b''] else Inr [''a'']" "''a''" "''b''"]
    by simp
qed


lemma cname_loop_along:
  "resolves_along r (cur # targets) \<Longrightarrow> distinct (cur # targets) \<Longrightarrow>
   set (cur # targets) \<inter> seen = {} \<Longrightarrow> length targets < n \<Longrightarrow>
   r (last (cur # targets)) = Inl e \<or> r (last (cur # targets)) = Inr [] \<Longrightarrow>
   cname_loop r n cur seen chain = chain @ targets"
proof (induction targets arbitrary: n cur seen chain)
  case Nil
  then obtain m where n: "n = Suc m" by (cases n) auto
  have "cur \<notin> seen" using Nil.prems(3) by simp
  then show ?case using Nil.prems(5) n by auto
next
  case (Cons b rest)
  then obtain m where n: "n = Suc m" by (cases n) auto
  have notin: "cur \<notin> seen" using Cons.prems(3) by simp
  obtain t ts where r: "r cur = Inr (t # ts)" and t: "rstrip_dots t = b"
    using Cons.prems(1) by (auto split: sum.splits list.splits)
  have step: "cname_loop r n cur seen chain = cname_loop r m b (insert cur seen) (chain @ [b])"
    using n notin r t by simp
  have "cname_loop r m b (insert cur seen) (chain @ [b]) = (chain @ [b]) @ rest"
  proof (rule Cons.IH)
    show "resolves_along r (b # rest)" using Cons.prems(1) by simp
    show "distinct (b # rest)" using Cons.prems(2) by simp
    show "set (b # rest) \<inter> insert cur seen = {}" using Cons.prems(2,3) by auto
    show "length rest < m" using Cons.prems(4) n by simp
    show "r (last (b # rest)) = Inl e \<or> r (last (b # rest)) = Inr []"
      using Cons.prems(5) by simp
  qed
  then show ?case using step by simp
qed

text \<open>
  Claim C6. Whenever the loop comes to resolve a name and the resolution fails, for
  whichever reason, it stops and \<open>resolve_cname_chain\<close> returns, as a plain result, exactly
  the chain collected so far: if the names from the domain on resolve one to the next
  along \<open>targets\<close>, without a name coming twice and with fewer than 10 hops, and resolving
  the last of them raises (or its answer has no record), the result is \<open>targets\<close>.
\<close>

theorem resolve_failure_ends_chain:
  assumes "resolves_along r (rstrip_dots d # targets)"
    and "distinct (rstrip_dots d # targets)"
    and "length targets < 10"
    and "r (last (rstrip_dots d # targets)) = Inl e \<or> r (last (rstrip_dots d # targets)) = Inr []"
  shows "resolve_cname_chain (Inr r) d = Inr targets"
proof -
  have "cname_loop r 10 (rstrip_dots d) {} [] = [] @ targets"
    using assms by (intro cname_loop_along) simp_all
  then show ?thesis by (simp add: resolve_cname_chain_def)
qed

theorem resolve_failure_ends_chain_witness:
  "resolve_cname_chain (Inr chain_resolver) ''a.example.'' = Inr [''b.example'', ''c.example'']"
proof (rule resolve_failure_ends_chain [where e = Timeout])
  have s: "rstrip_dots ''a.example.'' = ''a.example''"
    by code_simp
  show "resolves_along chain_resolver (rstrip_dots ''a.example.'' # [''b.example'', ''c.example''])"
    unfolding s by code_simp
  show "distinct (rstrip_dots ''a.example.'' # [''b.example'', ''c.example''])"
    unfolding s by simp
  show "length [''b.example'', ''c.example''] < 10" by simp
  show "chain_resolver (last (rstrip_dots ''a.example.'' # [''b.example'', ''c.example''])) = Inl Timeout
        \<or> chain_resolver (last (rstrip_dots ''a.example.'' # [''b.example'', ''c.example''])) = Inr []"
    by (simp add: chain_resolver_def)
qed


section \<open>The HTTP fingerprint\<close>

lemma headers_get_missing:
  "\<forall>kv \<in> set hs. lower (fst kv) \<noteq> lower key \<Longrightarrow> headers_get hs key [] = []"
  by (induction hs) (auto simp: headers_get_def)


text \<open>
  Claim C5, amended. When the request raises, the fingerprint is the default one with
  \<open>error = str(e)\<close>: success is false and every other field is at its zero value; the
  error string is non-empty exactly when the exception's message is. When a response
  arrives, success holds with the status, the error is empty, and each curated header is
  the response's value or the empty string when the response lacks it. Success and error
  never hold together.
\<close>

theorem fetch_http_fingerprint_outcomes:
  "(session (''https://'' @ d @ ''/'') = HttpRaised e \<longrightarrow>
      fetch_http_fingerprint session d = HTTPFingerprint0\<lparr>http_error := e\<rparr>
      \<and> \<not> http_success (fetch_http_fingerprint session d)
      \<and> http_failure (fetch_http_fingerprint session d) = (e \<noteq> []))
   \<and> (session (''https://'' @ d @ ''/'') = HttpResponded resp \<longrightarrow>
      http_success (fetch_http_fingerprint session d)
      \<and> \<not> http_failure (fetch_http_fingerprint session d)
      \<and> status (fetch_http_fingerprint session d) = Some (resp_status resp)
      \<and> map (\<lambda>f. f (fetch_http_fingerprint session d))
           [content_type, server, via, cache, cf_ray, cf_cache_status, x_cache, x_served_by,
            x_amz_cf_pop, x_amz_cf_id, x_vercel_id, x_nf_request_id]
         = map (\<lambda>k. headers_get (resp_headers resp) k [])
           [''content-type'', ''server'', ''via'', ''cache-control'', ''cf-ray'', ''cf-cache-status'',
            ''x-cache'', ''x-served-by'', ''x-amz-cf-pop'', ''x-amz-cf-id'', ''x-vercel-id'',
            ''x-nf-request-id''])
   \<and> \<not> (http_success (fetch_http_fingerprint session d) \<and> http_failure (fetch_http_fingerprint session d))
   \<and> ((\<forall>kv \<in> set hs. lower (fst kv) \<noteq> lower key) \<longrightarrow> headers_get hs key [] = [])"
proof (intro conjI impI)
  show "\<not> (http_success (fetch_http_fingerprint session d) \<and> http_failure (fetch_http_fingerprint session d))"
    by (cases "session (''https://'' @ d @ ''/'')")
       (simp_all add: fetch_http_fingerprint_def http_success_def http_failure_def HTTPFingerprint0_def)
qed (simp_all add: fetch_http_fingerprint_def http_success_def http_failure_def HTTPFingerprint0_def
       headers_get_missing)


text \<open>
  An exception whose message is empty (a bare \<open>asyncio.TimeoutError\<close>, say) leaves neither
  side of "success or error" true.
\<close>

theorem fetch_http_fingerprint_empty_error_counterexample:
  "\<not> http_success (fetch_http_fingerprint (\<lambda>url. HttpRaised []) ''a.example'')
   \<and> \<not> http_failure (fetch_http_fingerprint (\<lambda>url. HttpRaised []) ''a.example'')"
  by (simp add: fetch_http_fingerprint_def http_success_def http_failure_def HTTPFingerprint0_def)

theorem fetch_http_fingerprint_outcomes_witness:
  "fetch_http_fingerprint (\<lambda>url. HttpRaised ''Connection refused'') ''a.example''
     = HTTPFingerprint0\<lparr>http_error := ''Connection refused''\<rparr>
   \<and> http_failure (fetch_http_fingerprint (\<lambda>url. HttpRaised ''Connection refused'') ''a.example'')
   \<and> http_success (fetch_http_fingerprint (\<lambda>url. HttpResponded sample_response) ''a.example'')
   \<and> status (fetch_http_fingerprint (\<lambda>url. HttpResponded sample_response) ''a.example'')
       = Some (resp_status sample_response)
   \<and> headers_get (resp_headers sample_response) ''via'' [] = []"
proof -
  have m: "\<forall>kv \<in> set (resp_headers sample_response). lower (fst kv) \<noteq> lower ''via''"
    unfolding sample_response_def by code_simp
  note w1 = fetch_http_fingerprint_outcomes [of "\<lambda>url. HttpRaised ''Connection refused''"
        "''a.example''" "''Connection refused''" sample_response "resp_headers sample_response" "''via''"]
  note w2 = fetch_http_fingerprint_outcomes [of "\<lambda>url. HttpResponded sample_response"
        "''a.example''" "[]" sample_response "[]" "[]"]
  have r1: "fetch_http_fingerprint (\<lambda>url. HttpRaised ''Connection refused'') ''a.example''
     = HTTPFingerprint0\<lparr>http_error := ''Connection refused''\<rparr>"
    using w1 by simp
  have r2: "http_failure (fetch_http_fingerprint (\<lambda>url. HttpRaised ''Connection refused'') ''a.example'')"
    using w1 [simplified] by blast
  have r3: "http_success (fetch_http_fingerprint (\<lambda>url. HttpResponded sample_response) ''a.example'')"
    using w2 [simplified] by blast
  have r4: "status (fetch_http_fingerprint (\<lambda>url. HttpResponded sample_response) ''a.example'')
       = Some (resp_status sample_response)"
    using w2 [simplified] by blast
  have r5: "headers_get (resp_headers sample_response) ''via'' [] = []"
    using w1 m by blast
  show ?thesis by (intro conjI r1 r2 r3 r4 r5)
qed


section \<open>Digests computed\<close>

text \<open>The model of SHA-256 on the test vector \<open>"abc"\<close> of FIPS 180-4.\<close>

lemma sha256_hex_abc:
  "sha256_hex ''abc'' = ''ba7816bf8f01cfea414140de5dae2223b00361a396177a9cb410ff61f20015ad''"
  by code_simp

lemma sha256_hex_host_upper:
  "sha256_hex ''cname=|final_host=A|status=|content_type=|server=|via=|cache_control=|x_cache=|x_served_by=|issuer=|alpn=''
     = ''d1bcbe92e84996af11553ffcd3152259d4017cdec1c9757bf4647a15fd7ef89f''"
  by code_simp

lemma sha256_hex_host_lower:
  "sha256_hex ''cname=|final_host=a|status=|content_type=|server=|via=|cache_control=|x_cache=|x_served_by=|issuer=|alpn=''
     = ''22318e13133f5ff852cca36b7b77e6c60bd9340cc176643a49f6744b672aa204''"
  by code_simp

lemma lower_A: "lower ''A'' = ''a''"
  by code_simp


section \<open>What the digest is\<close>

lemma compute_signature_with_lower:
  "compute_signature_with lower d chain h t = compute_signature d chain h t"
  by (simp add: compute_signature_with_def compute_signature_def)

lemma compute_signature_with_spec:
  assumes "lc [] = []" and "\<And>n. lc (str_int n) = str_int n"
  shows "compute_signature_with lc d chain h t = spec_signature lc (\<lambda>x. x) chain h t"
  unfolding compute_signature_with_def spec_signature_def
  by (rule arg_cong [where f = "\<lambda>p. take 16 (sha256_hex (join ''|'' p))"])
     (simp add: terminal_cname_def assms split: option.split)

lemma length_compute_signature_with: "length (compute_signature_with lc d chain h t) = 16"
  by (simp add: compute_signature_with_def length_sha256_hex)

lemma is_hex_take: "is_hex s \<Longrightarrow> is_hex (take n s)"
  unfolding is_hex_def using set_take_subset [of n s] by blast

lemma is_hex_compute_signature_with: "is_hex (compute_signature_with lc d chain h t)"
  unfolding compute_signature_with_def by (rule is_hex_take) (rule is_hex_sha256_hex)

text \<open>
  In the scanner the final host comes from \<open>fetch_http_fingerprint\<close>, which stores it in
  lower case.
\<close>

lemma compute_signature_of_fetched:
  "compute_signature d chain (fetch_http_fingerprint session d') t
     = spec_signature lower lower chain (fetch_http_fingerprint session d') t"
proof -
  have "compute_signature d chain (fetch_http_fingerprint session d') t
      = spec_signature lower (\<lambda>x. x) chain (fetch_http_fingerprint session d') t"
    using compute_signature_with_spec [of lower, OF lower_Nil lower_str_int]
    by (simp add: compute_signature_with_lower [symmetric])
  also have "\<dots> = spec_signature lower lower chain (fetch_http_fingerprint session d') t"
    by (simp add: spec_signature_def final_host_lower)
  finally show ?thesis .
qed

text \<open>
  Claim C2, amended. With \<open>lc\<close> the lowering of strings (\<open>str.lower()\<close>, which leaves the
  empty string and decimal numbers as they are), \<open>compute_signature\<close> returns for every
  input exactly 16 lower-case hexadecimal characters: the first 16 of the SHA-256 digest
  of the pipe-joined fields, in the order terminal CNAME target, final host, status,
  content type, server, via, cache-control, x-cache, x-served-by, issuer and ALPN, each
  behind its label and \<open>=\<close>. Every field is lowered but the final host, which is hashed
  as given. Whenever the final host is in lower case already, the digest is the one over
  the all-lower-case string.
\<close>

theorem compute_signature_digest:
  assumes "lc [] = []" and "\<And>n. lc (str_int n) = str_int n"
  shows "compute_signature_with lc d chain h t = spec_signature lc (\<lambda>x. x) chain h t
   \<and> length (compute_signature_with lc d chain h t) = 16
   \<and> is_hex (compute_signature_with lc d chain h t)
   \<and> (lc (final_host h) = final_host h \<longrightarrow>
        compute_signature_with lc d chain h t = spec_signature lc lc chain h t)"
proof -
  have a: "compute_signature_with lc d chain h t = spec_signature lc (\<lambda>x. x) chain h t"
    using assms by (rule compute_signature_with_spec)
  have b: "spec_signature lc (\<lambda>x. x) chain h t = spec_signature lc lc chain h t"
    if "lc (final_host h) = final_host h"
    using that by (simp add: spec_signature_def)
  have c: "lc (final_host h) = final_host h \<longrightarrow>
        compute_signature_with lc d chain h t = spec_signature lc lc chain h t"
    using a b by simp
  show ?thesis
    by (intro conjI a length_compute_signature_with is_hex_compute_signature_with c)
qed

theorem compute_signature_digest_witness:
  "compute_signature_with lower ''a.example'' [''x.example'', ''Edge.CDN.example'']
      (HTTPFingerprint0\<lparr>final_host := ''a.example'', status := Some 200, server := ''NGINX''\<rparr>)
      (TLSFingerprint0 ''a.example'')
     = spec_signature lower lower [''x.example'', ''Edge.CDN.example'']
         (HTTPFingerprint0\<lparr>final_host := ''a.example'', status := Some 200, server := ''NGINX''\<rparr>)
         (TLSFingerprint0 ''a.example'')
   \<and> length (compute_signature_with lower ''a.example'' [''x.example'', ''Edge.CDN.example'']
      (HTTPFingerprint0\<lparr>final_host := ''a.example'', status := Some 200, server := ''NGINX''\<rparr>)
      (TLSFingerprint0 ''a.example'')) = 16"
proof -
  have l: "lower ''a.example'' = ''a.example''"
    by code_simp
  have f: "lower (final_host (HTTPFingerprint0\<lparr>final_host := ''a.example'', status := Some 200,
              server := ''NGINX''\<rparr>))
           = final_host (HTTPFingerprint0\<lparr>final_host := ''a.example'', status := Some 200,
              server := ''NGINX''\<rparr>)"
    using l by simp
  show ?thesis
    using f compute_signature_digest [of lower "''a.example''" "[''x.example'', ''Edge.CDN.example'']"
        "HTTPFingerprint0\<lparr>final_host := ''a.example'', status := Some 200, server := ''NGINX''\<rparr>"
        "TLSFingerprint0 ''a.example''", OF lower_Nil lower_str_int]
    by blast
qed

text \<open>
  The final host is hashed as it is given: with the final host \<open>A\<close> the digest is that of
  the string with \<open>final_host=A\<close>, not of the one with \<open>final_host=a\<close>. On ASCII text
  \<open>str.lower()\<close> is \<open>lower\<close>.
\<close>

theorem compute_signature_host_case_counterexample:
  "compute_signature_with lower ''a.example'' [] (HTTPFingerprint0\<lparr>final_host := ''A''\<rparr>)
       (TLSFingerprint0 ''a.example'')
     = ''d1bcbe92e84996af''
   \<and> spec_signature lower lower [] (HTTPFingerprint0\<lparr>final_host := ''A''\<rparr>)
       (TLSFingerprint0 ''a.example'')
     = ''22318e13133f5ff8''"
proof
  have "compute_signature_with lower ''a.example'' [] (HTTPFingerprint0\<lparr>final_host := ''A''\<rparr>)
       (TLSFingerprint0 ''a.example'')
     = take 16 (sha256_hex ''cname=|final_host=A|status=|content_type=|server=|via=|cache_control=|x_cache=|x_served_by=|issuer=|alpn='')"
    by (simp add: compute_signature_with_def HTTPFingerprint0_def TLSFingerprint0_def lower_Nil)
  then show "compute_signature_with lower ''a.example'' [] (HTTPFingerprint0\<lparr>final_host := ''A''\<rparr>)
       (TLSFingerprint0 ''a.example'')
     = ''d1bcbe92e84996af''"
    by (simp only: sha256_hex_host_upper) simp
  have "spec_signature lower lower [] (HTTPFingerprint0\<lparr>final_host := ''A''\<rparr>)
       (TLSFingerprint0 ''a.example'')
     = take 16 (sha256_hex ''cname=|final_host=a|status=|content_type=|server=|via=|cache_control=|x_cache=|x_served_by=|issuer=|alpn='')"
    by (simp add: spec_signature_def terminal_cname_def HTTPFingerprint0_def TLSFingerprint0_def
        lower_Nil lower_A)
  then show "spec_signature lower lower [] (HTTPFingerprint0\<lparr>final_host := ''A''\<rparr>)
       (TLSFingerprint0 ''a.example'')
     = ''22318e13133f5ff8''"
    by (simp only: sha256_hex_host_lower) simp
qed


section \<open>Scanning one domain: failures stay local\<close>

lemma scan_domain_fields:
  "domain (scan_domain env d p) = d"
  "http (scan_domain env d p) = fetch_http_fingerprint (http_session env) d"
  "tls (scan_domain env d p) = fetch_tls_fingerprint d (tls_net env)"
  "websockets (scan_domain env d p) = (if p \<noteq> [] then probe_websockets (ws_session env) d p else [])"
  "cname_chain (scan_domain env d p) = (case resolve_cname_chain (dns env) d of Inr c \<Rightarrow> c | Inl e \<Rightarrow> [])"
  by (simp_all add: scan_domain_def scan_sign_def scan_ws_def scan_tls_def scan_http_def scan_dns_def
      split: sum.split)

lemma scan_domain_signature:
  "signature (scan_domain env d p)
     = compute_signature d
         (case resolve_cname_chain (dns env) d of Inr c \<Rightarrow> c | Inl e \<Rightarrow> [])
         (fetch_http_fingerprint (http_session env) d) (fetch_tls_fingerprint d (tls_net env))"
  by (simp add: scan_domain_def scan_sign_def scan_ws_def scan_tls_def scan_http_def scan_dns_def
      split: sum.split)

lemma scan_domain_signature_ignores_websockets:
  "signature (scan_domain (env\<lparr>ws_session := other\<rparr>) d paths') = signature (scan_domain env d paths)"
  by (simp add: scan_domain_signature)

lemma scan_domain_errors:
  "errors (scan_domain env d p)
     = (case resolve_cname_chain (dns env) d of Inr c \<Rightarrow> [] | Inl e \<Rightarrow> [''cname: '' @ e])
       @ (if \<not> http_ok (fetch_http_fingerprint (http_session env) d)
             \<and> http_error (fetch_http_fingerprint (http_session env) d) \<noteq> []
          then [''http: '' @ http_error (fetch_http_fingerprint (http_session env) d)] else [])
       @ (if \<not> tls_ok (fetch_tls_fingerprint d (tls_net env))
             \<and> tls_error (fetch_tls_fingerprint d (tls_net env)) \<noteq> []
          then [''tls: '' @ tls_error (fetch_tls_fingerprint d (tls_net env))] else [])"
  by (simp add: scan_domain_def scan_sign_def scan_ws_def scan_tls_def scan_http_def scan_dns_def
      split: sum.split)

lemma tls_failure_fields:
  "out \<in> {AddrRaised m, ConnectRaised ip m, HandshakeRaised ip m} \<Longrightarrow>
   \<not> tls_ok (fetch_tls_fingerprint d out) \<and> tls_error (fetch_tls_fingerprint d out) = m"
  by (auto simp: fetch_tls_fingerprint_def TLSFingerprint0_def)

lemma http_response_ok:
  "session (''https://'' @ d @ ''/'') = HttpResponded resp \<Longrightarrow>
   http_ok (fetch_http_fingerprint session d)"
  by (simp add: fetch_http_fingerprint_def HTTPFingerprint0_def)


lemma http_raised_fields:
  "session (''https://'' @ d @ ''/'') = HttpRaised e \<Longrightarrow>
   \<not> http_ok (fetch_http_fingerprint session d) \<and> http_error (fetch_http_fingerprint session d) = e"
  by (simp add: fetch_http_fingerprint_def HTTPFingerprint0_def)

lemma tls_no_certificate_fields:
  "tls_ok (fetch_tls_fingerprint d (Handshaken ip proto None))
   \<and> tls_error (fetch_tls_fingerprint d (Handshaken ip proto None)) = none_has_no_get"
  by (simp add: fetch_tls_fingerprint_def TLSFingerprint0_def)

lemma length_probe_websockets_from: "length (probe_websockets_from session d k ps) = length ps"
  by (induction ps arbitrary: k) simp_all

lemma probe_websockets_from_fields:
  "i < length ps \<Longrightarrow>
   ws_url (probe_websockets_from session d k ps ! i) = ws_url_of d (ps ! i)
   \<and> ws_ok (probe_websockets_from session d k ps ! i)
       = (case ws_result (session (k + i) (ws_url_of d (ps ! i))) of
            WsRaised x \<Rightarrow> False | WsConnected sp \<Rightarrow> True)
   \<and> ws_error (probe_websockets_from session d k ps ! i)
       = (case ws_result (session (k + i) (ws_url_of d (ps ! i))) of
            WsRaised x \<Rightarrow> x | WsConnected sp \<Rightarrow> [])"
proof (induction ps arbitrary: k i)
  case Nil
  then show ?case by simp
next
  case (Cons a ps)
  show ?case
  proof (cases i)
    case 0
    then show ?thesis by (simp add: ws_url_of_def)
  next
    case (Suc j)
    then have "j < length ps" using Cons.prems by simp
    then show ?thesis using Cons.IH [of j "Suc k"] Suc by simp
  qed
qed

lemma scan_domain_websockets:
  "websockets (scan_domain env d p) = probe_websockets_from (ws_session env) d 0 p"
  by (cases p) (simp_all add: scan_domain_fields probe_websockets_def)


text \<open>
  Claim C4, amended. \<open>scan_domain\<close> always returns a result for its domain: each probe
  runs whatever the others did, and the signature is computed from what they left. A
  failed HTTP request is recorded as \<open>http.error\<close> with \<open>http.ok\<close> false, a TLS failure in
  address lookup, connect or handshake as \<open>tls.error\<close> with \<open>tls.ok\<close> false, and a
  WebSocket failure as the error of its own probe. The error list holds \<open>cname: msg\<close>
  when an exception leaves the DNS probe (the chain is then empty), \<open>http: ...\<close> when
  \<open>http.ok\<close> is false and \<open>http.error\<close> is not empty, \<open>tls: ...\<close> when \<open>tls.ok\<close> is false and
  \<open>tls.error\<close> is not empty, and nothing else. So a resolution failure inside the DNS
  probe, which only ends the chain, is recorded nowhere, and a failure after the TLS
  handshake (no peer certificate) is recorded in \<open>tls.error\<close> with \<open>tls.ok\<close> true and is not
  appended. When the HTTP request gets a response and the TLS probe fails in address
  lookup, connect or handshake with message \<open>m\<close>, the result has \<open>http.ok\<close>, not \<open>tls.ok\<close>,
  \<open>tls.error = m\<close> and its signature.
\<close>

theorem scan_domain_isolates_failures:
  "(let r = scan_domain env d p in
      domain r = d
      \<and> cname_chain r = (case resolve_cname_chain (dns env) d of Inr c \<Rightarrow> c | Inl e \<Rightarrow> [])
      \<and> http r = fetch_http_fingerprint (http_session env) d
      \<and> tls r = fetch_tls_fingerprint d (tls_net env)
      \<and> websockets r = (if p \<noteq> [] then probe_websockets (ws_session env) d p else [])
      \<and> signature r = compute_signature d (cname_chain r) (http r) (tls r)
      \<and> errors r
          = (case resolve_cname_chain (dns env) d of Inr c \<Rightarrow> [] | Inl e \<Rightarrow> [''cname: '' @ e])
            @ (if \<not> http_ok (http r) \<and> http_error (http r) \<noteq> []
               then [''http: '' @ http_error (http r)] else [])
            @ (if \<not> tls_ok (tls r) \<and> tls_error (tls r) \<noteq> []
               then [''tls: '' @ tls_error (tls r)] else [])
      \<and> (http_session env (''https://'' @ d @ ''/'') = HttpRaised e
         \<longrightarrow> \<not> http_ok (http r) \<and> http_error (http r) = e)
      \<and> (tls_net env \<in> {AddrRaised m, ConnectRaised ip m, HandshakeRaised ip m}
         \<longrightarrow> \<not> tls_ok (tls r) \<and> tls_error (tls r) = m)
      \<and> (tls_net env = Handshaken ip proto None
         \<longrightarrow> tls_ok (tls r) \<and> tls_error (tls r) = none_has_no_get)
      \<and> length (websockets r) = length p
      \<and> (\<forall>i<length p.
            ws_url (websockets r ! i) = ws_url_of d (p ! i)
            \<and> ws_ok (websockets r ! i)
                = (case ws_result (ws_session env i (ws_url_of d (p ! i))) of
                     WsRaised x \<Rightarrow> False | WsConnected sp \<Rightarrow> True)
            \<and> ws_error (websockets r ! i)
                = (case ws_result (ws_session env i (ws_url_of d (p ! i))) of
                     WsRaised x \<Rightarrow> x | WsConnected sp \<Rightarrow> []))
      \<and> (http_session env (''https://'' @ d @ ''/'') = HttpResponded resp
           \<and> tls_net env \<in> {AddrRaised m, ConnectRaised ip m, HandshakeRaised ip m}
         \<longrightarrow> http_ok (http r) \<and> \<not> tls_ok (tls r) \<and> tls_error (tls r) = m
             \<and> signature r = compute_signature d (cname_chain r) (http r) (tls r)))"
proof -
  have f1: "domain (scan_domain env d p) = d"
    and f2: "cname_chain (scan_domain env d p)
              = (case resolve_cname_chain (dns env) d of Inr c \<Rightarrow> c | Inl e \<Rightarrow> [])"
    and f3: "http (scan_domain env d p) = fetch_http_fingerprint (http_session env) d"
    and f4: "tls (scan_domain env d p) = fetch_tls_fingerprint d (tls_net env)"
    and f5: "websockets (scan_domain env d p)
              = (if p \<noteq> [] then probe_websockets (ws_session env) d p else [])"
    by (simp_all add: scan_domain_fields)
  have f6: "signature (scan_domain env d p)
      = compute_signature d (cname_chain (scan_domain env d p)) (http (scan_domain env d p))
          (tls (scan_domain env d p))"
    by (simp add: scan_domain_fields scan_domain_signature)
  have f7: "errors (scan_domain env d p)
      = (case resolve_cname_chain (dns env) d of Inr c \<Rightarrow> [] | Inl e \<Rightarrow> [''cname: '' @ e])
        @ (if \<not> http_ok (http (scan_domain env d p)) \<and> http_error (http (scan_domain env d p)) \<noteq> []
           then [''http: '' @ http_error (http (scan_domain env d p))] else [])
        @ (if \<not> tls_ok (tls (scan_domain env d p)) \<and> tls_error (tls (scan_domain env d p)) \<noteq> []
           then [''tls: '' @ tls_error (tls (scan_domain env d p))] else [])"
    by (simp add: scan_domain_fields scan_domain_errors)
  have f8: "http_session env (''https://'' @ d @ ''/'') = HttpRaised e
      \<longrightarrow> \<not> http_ok (http (scan_domain env d p)) \<and> http_error (http (scan_domain env d p)) = e"
    using http_raised_fields [of "http_session env" d e] by (simp add: f3)
  have f9: "tls_net env \<in> {AddrRaised m, ConnectRaised ip m, HandshakeRaised ip m}
      \<longrightarrow> \<not> tls_ok (tls (scan_domain env d p)) \<and> tls_error (tls (scan_domain env d p)) = m"
    using tls_failure_fields [of "tls_net env" m ip d] unfolding f4 by blast
  have f10: "tls_net env = Handshaken ip proto None
      \<longrightarrow> tls_ok (tls (scan_domain env d p)) \<and> tls_error (tls (scan_domain env d p)) = none_has_no_get"
    using tls_no_certificate_fields [of d ip proto] unfolding f4 by auto
  have f11: "length (websockets (scan_domain env d p)) = length p"
    by (simp add: scan_domain_websockets length_probe_websockets_from)
  have f12: "\<forall>i<length p.
            ws_url (websockets (scan_domain env d p) ! i) = ws_url_of d (p ! i)
            \<and> ws_ok (websockets (scan_domain env d p) ! i)
                = (case ws_result (ws_session env i (ws_url_of d (p ! i))) of
                     WsRaised x \<Rightarrow> False | WsConnected sp \<Rightarrow> True)
            \<and> ws_error (websockets (scan_domain env d p) ! i)
                = (case ws_result (ws_session env i (ws_url_of d (p ! i))) of
                     WsRaised x \<Rightarrow> x | WsConnected sp \<Rightarrow> [])"
    using probe_websockets_from_fields [of _ p "ws_session env" d 0]
    by (simp add: scan_domain_websockets)
  have f13: "http_session env (''https://'' @ d @ ''/'') = HttpResponded resp
           \<and> tls_net env \<in> {AddrRaised m, ConnectRaised ip m, HandshakeRaised ip m}
         \<longrightarrow> http_ok (http (scan_domain env d p)) \<and> \<not> tls_ok (tls (scan_domain env d p))
             \<and> tls_error (tls (scan_domain env d p)) = m
             \<and> signature (scan_domain env d p)
                = compute_signature d (cname_chain (scan_domain env d p)) (http (scan_domain env d p))
                    (tls (scan_domain env d p))"
    using f9 f6 http_response_ok [of "http_session env" d resp] unfolding f3 by blast
  show ?thesis
    unfolding Let_def by (intro conjI f1 f2 f3 f4 f5 f6 f7 f8 f9 f10 f11 f12 f13)
qed


text \<open>
  A DNS timeout on the domain itself, with the other probes succeeding: the error list
  is empty and the chain is empty, so the failure is recorded nowhere. When building the
  resolver raises instead, the message goes to the error list and the chain, which has no
  error field, stays empty.
\<close>

theorem scan_domain_dns_failure_counterexample:
  "errors (scan_domain sample_probes ''a.example'' []) = []
   \<and> cname_chain (scan_domain sample_probes ''a.example'' []) = []
   \<and> errors (scan_domain (sample_probes\<lparr>dns := Inl ''no resolver configuration''\<rparr>) ''a.example'' [])
       = [''cname: no resolver configuration'']
   \<and> cname_chain (scan_domain (sample_probes\<lparr>dns := Inl ''no resolver configuration''\<rparr>) ''a.example'' [])
       = []"
  by (simp add: scan_domain_fields scan_domain_errors sample_probes_def resolve_cname_chain_def
      cname_loop_fail fetch_http_fingerprint_def fetch_tls_fingerprint_def HTTPFingerprint0_def
      TLSFingerprint0_def)

text \<open>
  The TLS handshake fails while the HTTP request is answered; and the handshake goes
  through but the peer has no certificate: the error is on the fingerprint, \<open>ok\<close> is
  true, and the error list does not get it.
\<close>

theorem scan_domain_isolates_failures_witness:
  "http_ok (http (scan_domain (sample_probes\<lparr>tls_net := HandshakeRaised ''192.0.2.1'' ''handshake failure''\<rparr>)
       ''a.example'' []))
   \<and> \<not> tls_ok (tls (scan_domain (sample_probes\<lparr>tls_net := HandshakeRaised ''192.0.2.1'' ''handshake failure''\<rparr>)
       ''a.example'' []))
   \<and> tls_error (tls (scan_domain (sample_probes\<lparr>tls_net := HandshakeRaised ''192.0.2.1'' ''handshake failure''\<rparr>)
       ''a.example'' [])) = ''handshake failure''
   \<and> tls_ok (tls (scan_domain (sample_probes\<lparr>tls_net := Handshaken ''192.0.2.1'' None None\<rparr>)
       ''a.example'' []))
   \<and> tls_error (tls (scan_domain (sample_probes\<lparr>tls_net := Handshaken ''192.0.2.1'' None None\<rparr>)
       ''a.example'' [])) = none_has_no_get
   \<and> errors (scan_domain (sample_probes\<lparr>tls_net := Handshaken ''192.0.2.1'' None None\<rparr>)
       ''a.example'' []) = []"
proof -
  note w = scan_domain_isolates_failures
    [where env = "sample_probes\<lparr>tls_net := HandshakeRaised ''192.0.2.1'' ''handshake failure''\<rparr>"
       and d = "''a.example''" and p = "[]" and resp = sample_response
       and m = "''handshake failure''" and ip = "''192.0.2.1''",
     unfolded Let_def]
  note v = scan_domain_isolates_failures
    [where env = "sample_probes\<lparr>tls_net := Handshaken ''192.0.2.1'' None None\<rparr>"
       and d = "''a.example''" and p = "[]" and ip = "''192.0.2.1''" and proto = None,
     unfolded Let_def]
  have h: "http_session (sample_probes\<lparr>tls_net := HandshakeRaised ''192.0.2.1'' ''handshake failure''\<rparr>)
       (''https://'' @ ''a.example'' @ ''/'') = HttpResponded sample_response
     \<and> tls_net (sample_probes\<lparr>tls_net := HandshakeRaised ''192.0.2.1'' ''handshake failure''\<rparr>)
       \<in> {AddrRaised ''handshake failure'', ConnectRaised ''192.0.2.1'' ''handshake failure'',
           HandshakeRaised ''192.0.2.1'' ''handshake failure''}"
    by (simp add: sample_probes_def)
  have g: "tls_net (sample_probes\<lparr>tls_net := Handshaken ''192.0.2.1'' None None\<rparr>)
       = Handshaken ''192.0.2.1'' None None"
    by simp
  have a: "http_ok (http (scan_domain (sample_probes\<lparr>tls_net := HandshakeRaised ''192.0.2.1'' ''handshake failure''\<rparr>)
       ''a.example'' []))
   \<and> \<not> tls_ok (tls (scan_domain (sample_probes\<lparr>tls_net := HandshakeRaised ''192.0.2.1'' ''handshake failure''\<rparr>)
       ''a.example'' []))
   \<and> tls_error (tls (scan_domain (sample_probes\<lparr>tls_net := HandshakeRaised ''192.0.2.1'' ''handshake failure''\<rparr>)
       ''a.example'' [])) = ''handshake failure''"
    using w h by blast
  have b: "tls_ok (tls (scan_domain (sample_probes\<lparr>tls_net := Handshaken ''192.0.2.1'' None None\<rparr>)
       ''a.example'' []))
   \<and> tls_error (tls (scan_domain (sample_probes\<lparr>tls_net := Handshaken ''192.0.2.1'' None None\<rparr>)
       ''a.example'' [])) = none_has_no_get"
    using v g by blast
  have c: "errors (scan_domain (sample_probes\<lparr>tls_net := Handshaken ''192.0.2.1'' None None\<rparr>)
       ''a.example'' []) = []"
    by (simp add: scan_domain_fields scan_domain_errors sample_probes_def resolve_cname_chain_def
      cname_loop_fail fetch_http_fingerprint_def fetch_tls_fingerprint_def HTTPFingerprint0_def
      TLSFingerprint0_def)
  show ?thesis using a b c by blast
qed


section \<open>Grouping\<close>

lemma fst_setdefault_append:
  "map fst (setdefault_append g k v)
     = (if k \<in> set (map fst g) then map fst g else map fst g @ [k])"
  by (induction g k v rule: setdefault_append.induct) auto

lemma mem_setdefault_append:
  "distinct (map fst g) \<Longrightarrow> (s, vs) \<in> set (setdefault_append g k v) \<Longrightarrow>
   (s \<noteq> k \<and> (s, vs) \<in> set g)
   \<or> (s = k \<and> (\<exists>vs0. (k, vs0) \<in> set g \<and> vs = vs0 @ [v]))
   \<or> (s = k \<and> k \<notin> fst ` set g \<and> vs = [v])"
  by (induction g k v rule: setdefault_append.induct) (force split: if_splits)+

lemma first_index_old:
  "s \<in> signature ` set rs \<Longrightarrow>
   first_index s (rs @ [r]) = first_index s rs \<and> first_index s rs < length rs"
proof -
  assume "s \<in> signature ` set rs"
  then obtain x where x: "x \<in> set rs" "\<not> signature x \<noteq> s" by auto
  have a: "takeWhile (\<lambda>r. signature r \<noteq> s) (rs @ [r]) = takeWhile (\<lambda>r. signature r \<noteq> s) rs"
    using x by (rule takeWhile_append1)
  have "takeWhile (\<lambda>r. signature r \<noteq> s) rs \<noteq> rs"
    using x by (metis set_takeWhileD)
  then have "length (takeWhile (\<lambda>r. signature r \<noteq> s) rs) \<noteq> length rs"
    by (metis takeWhile_eq_take take_all_iff order_refl)
  then have b: "length (takeWhile (\<lambda>r. signature r \<noteq> s) rs) < length rs"
    using length_takeWhile_le [of "\<lambda>r. signature r \<noteq> s" rs] by linarith
  show ?thesis using a b by (simp add: first_index_def)
qed

lemma first_index_new:
  "signature r \<notin> signature ` set rs \<Longrightarrow> first_index (signature r) (rs @ [r]) = length rs"
proof -
  assume h: "signature r \<notin> signature ` set rs"
  have n: "signature x \<noteq> signature r" if "x \<in> set rs" for x
  proof
    assume e: "signature x = signature r"
    have "signature x \<in> signature ` set rs" using that by (rule imageI)
    then show False using h e by simp
  qed
  have "takeWhile (\<lambda>x. signature x \<noteq> signature r) (rs @ [r])
        = rs @ takeWhile (\<lambda>x. signature x \<noteq> signature r) [r]"
    by (rule takeWhile_append2) (rule n)
  then show ?thesis by (simp add: first_index_def)
qed

lemma group_items_snoc:
  "group_items (rs @ [r]) = setdefault_append (group_items rs) (signature r) r"
  by (simp add: group_items_def)

lemma group_items_inv:
  "distinct (map fst (group_items rs))
   \<and> set (map fst (group_items rs)) = signature ` set rs
   \<and> (\<forall>s vs. (s, vs) \<in> set (group_items rs) \<longrightarrow> vs = filter (\<lambda>r. signature r = s) rs)
   \<and> sorted_wrt (\<lambda>a b. first_index a rs < first_index b rs) (map fst (group_items rs))"
proof (induction rs rule: rev_induct)
  case Nil
  show ?case by (simp add: group_items_def)
next
  case (snoc r rs)
  define g where "g = group_items rs"
  define k where "k = signature r"
  have d: "distinct (map fst g)"
    and ks: "set (map fst g) = signature ` set rs"
    and vs: "\<And>s vs. (s, vs) \<in> set g \<Longrightarrow> vs = filter (\<lambda>r. signature r = s) rs"
    and so: "sorted_wrt (\<lambda>a b. first_index a rs < first_index b rs) (map fst g)"
    using snoc unfolding g_def by blast+
  have step: "group_items (rs @ [r]) = setdefault_append g k r"
    unfolding g_def k_def by (rule group_items_snoc)
  have keys: "map fst (setdefault_append g k r)
     = (if k \<in> set (map fst g) then map fst g else map fst g @ [k])"
    by (rule fst_setdefault_append)
  have c1: "distinct (map fst (setdefault_append g k r))"
    using d keys by simp
  have c2: "set (map fst (setdefault_append g k r)) = signature ` set (rs @ [r])"
    using ks keys unfolding k_def by auto
  have c3: "vs' = filter (\<lambda>x. signature x = s) (rs @ [r])"
    if m: "(s, vs') \<in> set (setdefault_append g k r)" for s vs'
  proof -
    from mem_setdefault_append [OF d m]
    consider (other) "s \<noteq> k" "(s, vs') \<in> set g"
      | (old) vs0 where "s = k" "(k, vs0) \<in> set g" "vs' = vs0 @ [r]"
      | (new) "s = k" "k \<notin> fst ` set g" "vs' = [r]"
      by blast
    then show ?thesis
    proof cases
      case other
      then show ?thesis using vs [of s vs'] unfolding k_def by auto
    next
      case old
      then show ?thesis using vs [of k vs0] unfolding k_def by auto
    next
      case new
      then have "k \<notin> signature ` set rs" using ks by simp
      then have "filter (\<lambda>x. signature x = k) rs = []"
        by (auto simp: filter_empty_conv)
      then show ?thesis using new unfolding k_def by simp
    qed
  qed
  have old_keys: "first_index a (rs @ [r]) = first_index a rs \<and> first_index a rs < length rs"
    if "a \<in> set (map fst g)" for a
    using that ks first_index_old [of a rs r] by simp
  have so': "sorted_wrt (\<lambda>a b. first_index a (rs @ [r]) < first_index b (rs @ [r])) (map fst g)"
    using so by (rule sorted_wrt_mono_rel [rotated]) (simp add: old_keys)
  have c4: "sorted_wrt (\<lambda>a b. first_index a (rs @ [r]) < first_index b (rs @ [r]))
              (map fst (setdefault_append g k r))"
  proof (cases "k \<in> set (map fst g)")
    case True
    then show ?thesis using so' keys by simp
  next
    case False
    then have "signature r \<notin> signature ` set rs" using ks unfolding k_def by simp
    then have "first_index k (rs @ [r]) = length rs"
      unfolding k_def by (rule first_index_new)
    then have "\<forall>a \<in> set (map fst g). first_index a (rs @ [r]) < first_index k (rs @ [r])"
      using old_keys by simp
    then show ?thesis using so' keys False by (simp add: sorted_wrt_append)
  qed
  show ?case
    unfolding step using c1 c2 c3 c4 by blast
qed

lemma sorted_reverse_set: "set (sorted_reverse f xs) = set xs"
  by (simp add: sorted_reverse_def)

lemma sorted_reverse_mset: "mset (sorted_reverse f xs) = mset xs"
  by (simp add: sorted_reverse_def)

lemma sorted_reverse_desc: "sorted_wrt (\<lambda>x y. f y \<le> f x) (sorted_reverse f xs)"
proof -
  have "sorted (map f (sort_key f (rev xs)))" by (rule sorted_sort_key)
  then have "sorted_wrt (\<lambda>x y. f x \<le> f y) (sort_key f (rev xs))"
    by (simp add: sorted_map)
  then show ?thesis
    by (simp add: sorted_reverse_def sorted_wrt_rev)
qed

lemma sorted_reverse_stable:
  "filter (\<lambda>x. f x = k) (sorted_reverse f xs) = filter (\<lambda>x. f x = k) xs"
proof -
  have "filter (\<lambda>x. f x = k) (sorted_reverse f xs)
        = rev (filter (\<lambda>x. f x = k) (sort_key f (rev xs)))"
    by (simp add: sorted_reverse_def rev_filter)
  also have "\<dots> = rev (filter (\<lambda>x. f x = k) (rev xs))"
    by (simp only: sort_key_stable)
  also have "\<dots> = filter (\<lambda>x. f x = k) xs"
    by (simp add: rev_filter)
  finally show ?thesis .
qed

lemma ties_by_class:
  fixes f :: "'a \<Rightarrow> nat"
  shows "sorted_wrt (\<lambda>x y. f y \<le> f x) ys \<Longrightarrow> (\<And>k. sorted_wrt Q (filter (\<lambda>x. f x = k) ys)) \<Longrightarrow>
         sorted_wrt (\<lambda>x y. f y < f x \<or> (f x = f y \<and> Q x y)) ys"
proof (induction ys)
  case Nil
  show ?case by simp
next
  case (Cons y ys)
  have tl: "sorted_wrt Q (filter (\<lambda>x. f x = k) ys)" for k
    using Cons.prems(2) [of k] by (cases "f y = k") simp_all
  have ih: "sorted_wrt (\<lambda>x y. f y < f x \<or> (f x = f y \<and> Q x y)) ys"
    using Cons.IH Cons.prems(1) tl by simp
  have hd: "f z < f y \<or> (f y = f z \<and> Q y z)" if z: "z \<in> set ys" for z
  proof (cases "f z = f y")
    case True
    have "sorted_wrt Q (y # filter (\<lambda>x. f x = f y) ys)"
      using Cons.prems(2) [of "f y"] by simp
    then show ?thesis using z True by simp
  next
    case False
    then show ?thesis using Cons.prems(1) z by fastforce
  qed
  show ?case using ih hd by simp
qed


text \<open>
  Claim C7. \<open>group_by_signature\<close> has one group for each signature that occurs, holding
  exactly the results with that signature in their input order; the groups come by
  member count, largest first, and groups of equal size in the order in which their
  signatures first occur in the input.
\<close>

theorem group_by_signature_ordered:
  "distinct (map fst (group_by_signature rs))
   \<and> fst ` set (group_by_signature rs) = signature ` set rs
   \<and> (\<forall>(s, g) \<in> set (group_by_signature rs). g = filter (\<lambda>r. signature r = s) rs)
   \<and> sorted_wrt (\<lambda>(s, g) (s', g').
         length g' < length g \<or> (length g = length g' \<and> first_index s rs < first_index s' rs))
       (group_by_signature rs)"
proof -
  define G where "G = group_items rs"
  define out where "out = group_by_signature rs"
  have out: "out = sorted_reverse (\<lambda>kv. length (snd kv)) G"
    unfolding out_def G_def by (simp add: group_by_signature_def)
  have d: "distinct (map fst G)"
    and ks: "set (map fst G) = signature ` set rs"
    and vs: "\<And>s vs. (s, vs) \<in> set G \<Longrightarrow> vs = filter (\<lambda>r. signature r = s) rs"
    and so: "sorted_wrt (\<lambda>a b. first_index a rs < first_index b rs) (map fst G)"
    using group_items_inv [of rs] unfolding G_def by blast+
  have m: "mset (map fst out) = mset (map fst G)"
    unfolding out by (simp add: sorted_reverse_mset)
  have a1: "distinct (map fst out)"
    using d m by (metis mset_eq_imp_distinct_iff)
  have s: "set out = set G"
    unfolding out by (rule sorted_reverse_set)
  have a2: "fst ` set out = signature ` set rs"
    using ks s by simp
  have a3: "\<forall>(s, g) \<in> set out. g = filter (\<lambda>r. signature r = s) rs"
    using vs s by auto
  have q: "sorted_wrt (\<lambda>x y. first_index (fst x) rs < first_index (fst y) rs) G"
    using so by (simp add: sorted_wrt_map)
  have cls: "sorted_wrt (\<lambda>x y. first_index (fst x) rs < first_index (fst y) rs)
               (filter (\<lambda>x. length (snd x) = k) out)" for k
    unfolding out sorted_reverse_stable using q by (rule sorted_wrt_filter)
  have desc: "sorted_wrt (\<lambda>x y. length (snd y) \<le> length (snd x)) out"
    unfolding out by (rule sorted_reverse_desc)
  have "sorted_wrt (\<lambda>x y. length (snd y) < length (snd x)
          \<or> (length (snd x) = length (snd y) \<and> first_index (fst x) rs < first_index (fst y) rs)) out"
    using desc cls by (rule ties_by_class)
  then have a4: "sorted_wrt (\<lambda>(s, g) (s', g').
         length g' < length g \<or> (length g = length g' \<and> first_index s rs < first_index s' rs)) out"
    by (rule sorted_wrt_mono_rel [rotated]) auto
  show ?thesis using a1 a2 a3 a4 unfolding out_def by blast
qed

theorem group_by_signature_ordered_witness:
  "group_by_signature
     [sample_result ''a.example'' ''s2'', sample_result ''b.example'' ''s1'',
      sample_result ''c.example'' ''s1'', sample_result ''d.example'' ''s3'']
   = [(''s1'', [sample_result ''b.example'' ''s1'', sample_result ''c.example'' ''s1'']),
      (''s2'', [sample_result ''a.example'' ''s2'']),
      (''s3'', [sample_result ''d.example'' ''s3''])]
   \<and> distinct (map fst (group_by_signature
     [sample_result ''a.example'' ''s2'', sample_result ''b.example'' ''s1'',
      sample_result ''c.example'' ''s1'', sample_result ''d.example'' ''s3'']))"
proof
  show "group_by_signature
     [sample_result ''a.example'' ''s2'', sample_result ''b.example'' ''s1'',
      sample_result ''c.example'' ''s1'', sample_result ''d.example'' ''s3'']
   = [(''s1'', [sample_result ''b.example'' ''s1'', sample_result ''c.example'' ''s1'']),
      (''s2'', [sample_result ''a.example'' ''s2'']),
      (''s3'', [sample_result ''d.example'' ''s3''])]"
    by (simp add: group_by_signature_def group_items_def sorted_reverse_def sample_result_def)
  show "distinct (map fst (group_by_signature
     [sample_result ''a.example'' ''s2'', sample_result ''b.example'' ''s1'',
      sample_result ''c.example'' ''s1'', sample_result ''d.example'' ''s3'']))"
    using group_by_signature_ordered
      [of "[sample_result ''a.example'' ''s2'', sample_result ''b.example'' ''s1'',
            sample_result ''c.example'' ''s1'', sample_result ''d.example'' ''s3'']"]
    by blast
qed


section \<open>The domain normalizer\<close>

text \<open>
  When \<open>_norm_domain\<close> raises: exactly when the stripped line is not blank, is no comment,
  contains \<open>://\<close> and the URL parser raises on it, and then with the parser's exception.
  Blank lines and comments give nothing, and a line without \<open>://\<close> always returns.
\<close>

lemma norm_domain_raises:
  "(norm_domain hn line = Inl e)
     = (strip line \<noteq> [] \<and> \<not> prefix ''#'' (strip line) \<and> contains ''://'' (strip line)
        \<and> hn (strip line) = Inl e)
   \<and> (strip line = [] \<or> prefix ''#'' (strip line) \<longrightarrow> norm_domain hn line = Inr None)
   \<and> (\<not> contains ''://'' (strip line) \<longrightarrow> (\<exists>r. norm_domain hn line = Inr r))"
  by (auto simp: norm_domain_def split: sum.splits option.splits)

text \<open>The normalization examples of the specification.\<close>

lemma norm_domain_examples:
  "norm_domain urlparse_hostname ''https://Example.com:8443/path'' = Inr (Some ''example.com'')"
  "norm_domain urlparse_hostname ''sub.example.org/'' = Inr (Some ''sub.example.org'')"
  "norm_domain urlparse_hostname '''' = Inr None"
  "norm_domain urlparse_hostname ''  # comment'' = Inr None"
  by code_simp+

text \<open>
  Claim C8. The normalizer is to surface no exception for any line, an unparseable line
  giving nothing. On the line \<open>http://[\<close>, whose network location has an opening bracket
  and no closing one, the URL parser raises \<open>ValueError\<close> and \<open>_norm_domain\<close>, which has no
  handler, lets it through.
\<close>

theorem norm_domain_unbalanced_bracket_raises:
  "norm_domain urlparse_hostname ''http://['' = Inl (ValueError ''Invalid IPv6 URL'')"
  by code_simp

section \<open>Exit status\<close>

text \<open>
  Claim C9, amended. \<open>scan_action\<close> returns 0 when it completes a scan: with a non-empty
  domain list, a positive concurrency and no failing output file it returns 0 with the
  results, and whenever it returns on a non-empty list the status is 0. With an empty
  domain list it returns 2 at once, with no result. That status differs from success but
  not from the status of a command-line error, which is 2 as well.
\<close>

theorem scan_action_exit_status:
  "(read_domains (hostname_of w) (domains_file w) = Inr ds \<and> ds \<noteq> [] \<and> 0 < concurrency a
      \<and> (jsonl a = [] \<or> jsonl_write w = None) \<and> (summary a = [] \<or> summary_write w = None)
     \<longrightarrow> scan_action a w = Returns (0, scan_results a w ds))
   \<and> (scan_action a w = Returns (n, rs) \<and> read_domains (hostname_of w) (domains_file w) \<noteq> Inr []
     \<longrightarrow> n = 0)
   \<and> (read_domains (hostname_of w) (domains_file w) = Inr []
     \<longrightarrow> scan_action a w = Returns (2, []) \<and> (2::int) \<noteq> 0)
   \<and> exit_status (main ParseError w) = Some 2
   \<and> (read_domains (hostname_of w) (domains_file w) = Inr [] \<and> cmd a = ''scan''
     \<longrightarrow> exit_status (main (Parsed a) w) = exit_status (main ParseError w))"
  by (auto simp: scan_action_def main_def exit_status_def argparse_error_status_def
      split: sum.splits option.splits if_splits)

lemma sample_world_domains:
  "read_domains urlparse_hostname (Inr [''# only a comment'', ''   '']) = Inr []"
  "read_domains urlparse_hostname (Inr [''a.example'']) = Inr [''a.example'']"
  by code_simp+


text \<open>A domain file of comments and blanks, and a command line that does not parse: both end with 2.\<close>

theorem scan_action_same_status_counterexample:
  "exit_status (main (Parsed sample_args) sample_world) = Some 2
   \<and> exit_status (main ParseError sample_world) = Some 2"
  by (simp add: main_def scan_action_def exit_status_def argparse_error_status_def
      sample_args_def sample_world_def sample_world_domains)

theorem scan_action_exit_status_witness:
  "scan_action sample_args (sample_world\<lparr>domains_file := Inr [''a.example'']\<rparr>)
     = Returns (0, scan_results sample_args (sample_world\<lparr>domains_file := Inr [''a.example'']\<rparr>)
                     [''a.example''])
   \<and> scan_action sample_args sample_world = Returns (2, [])"
proof -
  note w1 = scan_action_exit_status
    [of "sample_world\<lparr>domains_file := Inr [''a.example'']\<rparr>" "[''a.example'']" sample_args 0 "[]"]
  note w2 = scan_action_exit_status [of sample_world "[]" sample_args 0 "[]"]
  have h1: "read_domains (hostname_of (sample_world\<lparr>domains_file := Inr [''a.example'']\<rparr>))
              (domains_file (sample_world\<lparr>domains_file := Inr [''a.example'']\<rparr>)) = Inr [''a.example'']
            \<and> [''a.example''] \<noteq> [] \<and> 0 < concurrency sample_args
            \<and> (jsonl sample_args = [] \<or> jsonl_write (sample_world\<lparr>domains_file := Inr [''a.example'']\<rparr>) = None)
            \<and> (summary sample_args = [] \<or> summary_write (sample_world\<lparr>domains_file := Inr [''a.example'']\<rparr>) = None)"
    by (simp add: sample_world_def sample_args_def sample_world_domains)
  have h2: "read_domains (hostname_of sample_world) (domains_file sample_world) = Inr []"
    by (simp add: sample_world_def sample_world_domains)
  show ?thesis using w1 w2 h1 h2 by blast
qed


section \<open>The concurrency bound\<close>

lemma filter_update_count:
  "i < length xs \<Longrightarrow>
   length (filter P (xs[i := y])) + (if P (xs ! i) then 1 else 0)
     = length (filter P xs) + (if P y then 1 else 0)"
proof (induction xs arbitrary: i)
  case Nil
  then show ?case by simp
next
  case (Cons x xs)
  show ?case
  proof (cases i)
    case 0
    then show ?thesis by simp
  next
    case (Suc j)
    then have "j < length xs" using Cons.prems by simp
    then show ?thesis using Cons.IH [of j] Suc by simp
  qed
qed

lemma orch_step_inv:
  "orch_step s s' \<Longrightarrow> in_flight s' + sem_value s' = in_flight s + sem_value s"
proof (induction rule: orch_step.induct)
  case (acquire i s)
  then show ?case
    using filter_update_count [of i "tasks s" is_running "Running 0"]
    by (simp add: in_flight_def is_running_def)
next
  case (probe i s k)
  then show ?case
    using filter_update_count [of i "tasks s" is_running "Running (Suc k)"]
    by (simp add: in_flight_def is_running_def)
next
  case (release i s)
  then show ?case
    using filter_update_count [of i "tasks s" is_running Done]
    by (simp add: in_flight_def is_running_def)
qed

lemma orch_reach_inv:
  "orch_step\<^sup>*\<^sup>* s s' \<Longrightarrow> in_flight s' + sem_value s' = in_flight s + sem_value s"
  by (induction rule: rtranclp_induct) (auto dest: orch_step_inv)

lemma in_flight_init: "in_flight (orch_init c n) = 0"
  by (simp add: in_flight_def orch_init_def is_running_def)


text \<open>
  Claim C10. In every state that the orchestrator reaches from its start with a
  semaphore of value \<open>c\<close> (the configured concurrency, 50 by default) and any number of
  tasks, by any interleaving of entering, probing and leaving, at most \<open>c\<close> tasks are
  inside \<open>scan_domain\<close>'s body.
\<close>

theorem in_flight_bounded:
  assumes "0 \<le> c" and "orch_step\<^sup>*\<^sup>* (orch_init c n) s"
  shows "int (in_flight s) \<le> c"
proof -
  have "in_flight s + sem_value s = in_flight (orch_init c n) + sem_value (orch_init c n)"
    by (rule orch_reach_inv [OF assms(2)])
  moreover have "sem_value (orch_init c n) = nat c"
    by (simp add: orch_init_def)
  ultimately have "in_flight s + sem_value s = nat c"
    using in_flight_init [of c n] by simp
  then show ?thesis using assms(1) by linarith
qed

theorem in_flight_bounded_witness:
  "orch_step\<^sup>*\<^sup>* (orch_init 1 2) \<lparr>sem_value = 0, tasks = [Running 0, Waiting]\<rparr>
   \<and> int (in_flight \<lparr>sem_value = 0, tasks = [Running 0, Waiting]\<rparr>) \<le> 1"
proof -
  have "orch_step (orch_init 1 2) ((orch_init 1 2)\<lparr>sem_value := sem_value (orch_init 1 2) - 1,
          tasks := (tasks (orch_init 1 2))[0 := Running 0]\<rparr>)"
    by (rule orch_step.acquire) (simp_all add: orch_init_def)
  then have "orch_step (orch_init 1 2) \<lparr>sem_value = 0, tasks = [Running 0, Waiting]\<rparr>"
    by (simp add: orch_init_def numeral_2_eq_2)
  then have r: "orch_step\<^sup>*\<^sup>* (orch_init 1 2) \<lparr>sem_value = 0, tasks = [Running 0, Waiting]\<rparr>"
    by (rule r_into_rtranclp)
  show ?thesis using r in_flight_bounded [of 1 2 "\<lparr>sem_value = 0, tasks = [Running 0, Waiting]\<rparr>"]
    by simp
qed


end
